theory Spec2Isabelle
  imports Main "HOL-Library.Word" "HOL-Library.AList" "HOL-Library.Char_ord" "HOL-Library.List_Lexorder"
    "HOL-Library.Multiset"
begin

section \<open>Schema references and failures\<close>

text \<open>
  \<^verbatim>\<open>openapi3.SchemaRef\<close> belongs to the kin-openapi library: a struct with the
  reference name \<^verbatim>\<open>Ref\<close> and the schema \<^verbatim>\<open>Value\<close>. The schema itself is
  a type parameter. The functions below receive \<^verbatim>\<open>*openapi3.SchemaRef\<close>, a pointer
  that may be nil: \<open>None\<close> is the nil pointer. \<^verbatim>\<open>reflect.DeepEqual\<close> on two such
  pointers compares the pointees field by field, which is equality of the model's values.
\<close>

record 'v SchemaRef =
  Ref :: string
  Value :: 'v

type_synonym 'v SchemaRefs = "'v SchemaRef option list"

text \<open>
  A call ends with a value, with a Go \<^verbatim>\<open>error\<close> (here \<open>Error e\<close>) or with a
  run-time panic.
\<close>

datatype 'e failure = NilPointerDereference | IndexOutOfRange | Error 'e

text \<open>Go's \<^verbatim>\<open>int\<close> on the 64 bit targets: addition wraps around.\<close>

type_synonym go_int = "64 word"

text \<open>\<^verbatim>\<open>xs[i]\<close> panics out of range.\<close>

definition at_index :: "'a list \<Rightarrow> nat \<Rightarrow> 'e failure + 'a" where
  "at_index xs i = (if i < length xs then Inr (xs ! i) else Inl IndexOutOfRange)"

text \<open>\<^verbatim>\<open>fmt.Sprintf("%d", n)\<close> for a non-negative \<open>n\<close>: the decimal digits.\<close>

definition digit_char :: "nat \<Rightarrow> char" where
  "digit_char d = ''0123456789'' ! d"

function showNat :: "nat \<Rightarrow> string" where
  "showNat n = (if n < 10 then [digit_char n] else showNat (n div 10) @ [digit_char (n mod 10)])"
  by pat_completeness auto
termination
  by (relation "measure (\<lambda>n. n)") auto

declare showNat.simps [simp del]

section \<open>SchemaListDiff\<close>

text \<open>
  \<^verbatim>\<open>ModifiedSchemas\<close> is a Go map from a key to a \<^verbatim>\<open>*SchemaDiff\<close>; the type of
  the schema diffs is the parameter \<open>'d\<close>. A nil map and an empty map both have length 0
  and are both \<open>Map.empty\<close>.
\<close>

type_synonym 'd ModifiedSchemas = "string \<rightharpoonup> 'd"

record 'd SchemaListDiff =
  Added :: go_int
  Deleted :: go_int
  Modified :: "'d ModifiedSchemas"

text \<open>The zero value \<^verbatim>\<open>SchemaListDiff{}\<close>.\<close>

definition SchemaListDiff_zero :: "'d SchemaListDiff" where
  "SchemaListDiff_zero = \<lparr>Added = 0, Deleted = 0, Modified = Map.empty\<rparr>"

text \<open>\<^verbatim>\<open>Empty\<close> has a pointer receiver; \<open>None\<close> is the nil pointer.\<close>

fun Empty :: "'d SchemaListDiff option \<Rightarrow> bool" where
  "Empty None = True"
| "Empty (Some diff) = (Added diff = 0 \<and> Deleted diff = 0 \<and> Modified diff = Map.empty)"

text \<open>
  Modelled from the spec: \<^verbatim>\<open>ModifiedSchemas.combine\<close> is not among the sources. The
  spec (section 3) says that combine "performs a disjoint-key union on \<open>modified\<close>": the
  result holds the entries of both maps. Where a key is in both, which the spec excludes,
  the entry of \<open>other\<close> is taken.
\<close>

definition ModifiedSchemas_combine :: "'d ModifiedSchemas \<Rightarrow> 'd ModifiedSchemas \<Rightarrow> 'd ModifiedSchemas" where
  "ModifiedSchemas_combine modifiedSchemas other = modifiedSchemas ++ other"

text \<open>\<^verbatim>\<open>combine\<close> returns a pointer to a new struct and a nil error.\<close>

definition combine :: "'d SchemaListDiff \<Rightarrow> 'd SchemaListDiff \<Rightarrow> 'e failure + 'd SchemaListDiff option" where
  "combine diff other =
     Inr (Some \<lparr>Added = Added diff + Added other,
                Deleted = Deleted diff + Deleted other,
                Modified = ModifiedSchemas_combine (Modified diff) (Modified other)\<rparr>)"

section \<open>Partition into referenced and inline schemas\<close>

fun isSchemaInline :: "'v SchemaRef option \<Rightarrow> bool" where
  "isSchemaInline None = False"
| "isSchemaInline (Some schemaRef) = (Ref schemaRef = [])"

fun isSchemaRef :: "'v SchemaRef option \<Rightarrow> bool" where
  "isSchemaRef None = False"
| "isSchemaRef (Some schemaRef) = (Ref schemaRef \<noteq> [])"

text \<open>The loop of \<^verbatim>\<open>filterSchemaRefs\<close> appends the accepted elements to \<open>result\<close>.\<close>

fun filterSchemaRefs_loop ::
  "'v SchemaRefs \<Rightarrow> ('v SchemaRef option \<Rightarrow> bool) \<Rightarrow> 'v SchemaRefs \<Rightarrow> 'v SchemaRefs" where
  "filterSchemaRefs_loop [] flt result = result"
| "filterSchemaRefs_loop (schemaRef # rest) flt result =
     filterSchemaRefs_loop rest flt (if flt schemaRef then result @ [schemaRef] else result)"

text \<open>
  After the loop the function returns \<^verbatim>\<open>schemaRefs\<close>, its argument, not
  \<^verbatim>\<open>result\<close>.
\<close>

definition filterSchemaRefs ::
  "'v SchemaRefs \<Rightarrow> ('v SchemaRef option \<Rightarrow> bool) \<Rightarrow> 'v SchemaRefs" where
  "filterSchemaRefs schemaRefs flt =
     (let result = filterSchemaRefs_loop schemaRefs flt [] in schemaRefs)"

section \<open>Diff of the schemas with a reference\<close>

text \<open>
  \<^verbatim>\<open>SchemaRefMap\<close> is a Go map from the reference name to the pointer. The model
  keeps it as an association list with one entry for each key, so that the loops over it
  can run. Go leaves the order of \<^verbatim>\<open>range\<close> over a map open; the model visits the
  keys in the order of their first insertion.
\<close>

type_synonym 'v SchemaRefMap = "(string \<times> 'v SchemaRef option) list"

text \<open>
  \<^verbatim>\<open>!isSchemaInline(schemaRef)\<close> holds of the nil pointer, and
  \<^verbatim>\<open>schemaRef.Ref\<close> then panics.
\<close>

fun toSchemaRefsMap_loop :: "'v SchemaRefs \<Rightarrow> 'v SchemaRefMap \<Rightarrow> 'e failure + 'v SchemaRefMap" where
  "toSchemaRefsMap_loop [] result = Inr result"
| "toSchemaRefsMap_loop (schemaRef # rest) result =
     (if \<not> isSchemaInline schemaRef then
        (case schemaRef of
           None \<Rightarrow> Inl NilPointerDereference
         | Some s \<Rightarrow> toSchemaRefsMap_loop rest (AList.update (Ref s) schemaRef result))
      else toSchemaRefsMap_loop rest result)"

definition toSchemaRefsMap :: "'v SchemaRefs \<Rightarrow> 'e failure + 'v SchemaRefMap" where
  "toSchemaRefsMap schemaRefs = toSchemaRefsMap_loop schemaRefs []"

text \<open>
  \<^verbatim>\<open>getSchemaDiff\<close> and \<^verbatim>\<open>SchemaDiff.Empty\<close> are not among the sources: they are
  the parameters \<open>getSchemaDiff\<close> and \<open>isEmpty\<close> of every function that calls them.
  \<open>getSchemaDiff config state schemaRef1 schemaRef2\<close> returns the \<^verbatim>\<open>*SchemaDiff\<close> or
  fails; the state is the set of pairs under comparison, which the call leaves as it
  found it (spec, section 4.3).
\<close>

text \<open>
  Modelled from the spec: \<^verbatim>\<open>ModifiedSchemas.addSchemaDiff\<close> is not among the sources.
  The spec (section 4.1) says that "a key is placed in \<open>modified\<close> only if its value-diff
  is non-empty".
\<close>

definition addSchemaDiff ::
  "('c \<Rightarrow> 's \<Rightarrow> 'v SchemaRef option \<Rightarrow> 'v SchemaRef option \<Rightarrow> 'e failure + 'd) \<Rightarrow> ('d \<Rightarrow> bool) \<Rightarrow>
   'c \<Rightarrow> 's \<Rightarrow> 'd ModifiedSchemas \<Rightarrow> string \<Rightarrow> 'v SchemaRef option \<Rightarrow> 'v SchemaRef option \<Rightarrow>
   'e failure + 'd ModifiedSchemas" where
  "addSchemaDiff getSchemaDiff isEmpty config state modifiedSchemas schema schemaRef1 schemaRef2 =
     (case getSchemaDiff config state schemaRef1 schemaRef2 of
        Inl err \<Rightarrow> Inl err
      | Inr diff \<Rightarrow> Inr (if \<not> isEmpty diff then modifiedSchemas(schema \<mapsto> diff) else modifiedSchemas))"

text \<open>The first loop of \<^verbatim>\<open>getSchemaMapsRefsDiff\<close>, over \<^verbatim>\<open>schemaMap1\<close>.\<close>

fun getSchemaMapsRefsDiff_deleted ::
  "('c \<Rightarrow> 's \<Rightarrow> 'v SchemaRef option \<Rightarrow> 'v SchemaRef option \<Rightarrow> 'e failure + 'd) \<Rightarrow> ('d \<Rightarrow> bool) \<Rightarrow>
   'c \<Rightarrow> 's \<Rightarrow> 'v SchemaRefMap \<Rightarrow> 'v SchemaRefMap \<Rightarrow> go_int \<Rightarrow> 'd ModifiedSchemas \<Rightarrow>
   'e failure + go_int \<times> 'd ModifiedSchemas" where
  "getSchemaMapsRefsDiff_deleted getSchemaDiff isEmpty config state [] schemaMap2 deleted modified =
     Inr (deleted, modified)"
| "getSchemaMapsRefsDiff_deleted getSchemaDiff isEmpty config state ((ref, schema1) # rest) schemaMap2 deleted modified =
     (case map_of schemaMap2 ref of
        Some schema2 \<Rightarrow>
          (case addSchemaDiff getSchemaDiff isEmpty config state modified ref schema1 schema2 of
             Inl err \<Rightarrow> Inl err
           | Inr modified' \<Rightarrow>
               getSchemaMapsRefsDiff_deleted getSchemaDiff isEmpty config state rest schemaMap2 deleted modified')
      | None \<Rightarrow>
          getSchemaMapsRefsDiff_deleted getSchemaDiff isEmpty config state rest schemaMap2 (deleted + 1) modified)"

text \<open>The second loop, over \<^verbatim>\<open>schemaMap2\<close>.\<close>

fun getSchemaMapsRefsDiff_added :: "'v SchemaRefMap \<Rightarrow> 'v SchemaRefMap \<Rightarrow> go_int \<Rightarrow> go_int" where
  "getSchemaMapsRefsDiff_added [] schemaMap1 added = added"
| "getSchemaMapsRefsDiff_added ((ref, schema2) # rest) schemaMap1 added =
     getSchemaMapsRefsDiff_added rest schemaMap1
       (if map_of schemaMap1 ref = None then added + 1 else added)"

definition getSchemaMapsRefsDiff ::
  "('c \<Rightarrow> 's \<Rightarrow> 'v SchemaRef option \<Rightarrow> 'v SchemaRef option \<Rightarrow> 'e failure + 'd) \<Rightarrow> ('d \<Rightarrow> bool) \<Rightarrow>
   'c \<Rightarrow> 's \<Rightarrow> 'v SchemaRefMap \<Rightarrow> 'v SchemaRefMap \<Rightarrow> 'e failure + 'd SchemaListDiff" where
  "getSchemaMapsRefsDiff getSchemaDiff isEmpty config state schemaMap1 schemaMap2 =
     (case getSchemaMapsRefsDiff_deleted getSchemaDiff isEmpty config state schemaMap1 schemaMap2 0 Map.empty of
        Inl err \<Rightarrow> Inl err
      | Inr (deleted, modified) \<Rightarrow>
          Inr \<lparr>Added = getSchemaMapsRefsDiff_added schemaMap2 schemaMap1 0,
               Deleted = deleted,
               Modified = modified\<rparr>)"

definition getSchemaListsRefsDiff ::
  "('c \<Rightarrow> 's \<Rightarrow> 'v SchemaRef option \<Rightarrow> 'v SchemaRef option \<Rightarrow> 'e failure + 'd) \<Rightarrow> ('d \<Rightarrow> bool) \<Rightarrow>
   'c \<Rightarrow> 's \<Rightarrow> 'v SchemaRefs \<Rightarrow> 'v SchemaRefs \<Rightarrow> 'e failure + 'd SchemaListDiff" where
  "getSchemaListsRefsDiff getSchemaDiff isEmpty config state schemaRefs1 schemaRefs2 =
     (case toSchemaRefsMap schemaRefs1 of
        Inl err \<Rightarrow> Inl err
      | Inr schemaMap1 \<Rightarrow>
          (case toSchemaRefsMap schemaRefs2 of
             Inl err \<Rightarrow> Inl err
           | Inr schemaMap2 \<Rightarrow>
               getSchemaMapsRefsDiff getSchemaDiff isEmpty config state schemaMap1 schemaMap2))"

section \<open>Diff of the inline schemas\<close>

text \<open>\<^verbatim>\<open>matched\<close> is a Go map used as a set of indexes.\<close>

definition alreadyMatched :: "nat \<Rightarrow> nat set \<Rightarrow> bool" where
  "alreadyMatched index matched = (index \<in> matched)"

fun findIndenticalSchema_loop ::
  "nat \<Rightarrow> 'v SchemaRef option \<Rightarrow> 'v SchemaRefs \<Rightarrow> nat set \<Rightarrow> bool \<times> nat" where
  "findIndenticalSchema_loop index2 schemaRef1 [] matched = (False, 0)"
| "findIndenticalSchema_loop index2 schemaRef1 (schemaRef2 # rest) matched =
     (if alreadyMatched index2 matched then
        findIndenticalSchema_loop (Suc index2) schemaRef1 rest matched
      else if schemaRef1 = schemaRef2 then (True, index2)
      else findIndenticalSchema_loop (Suc index2) schemaRef1 rest matched)"

definition findIndenticalSchema ::
  "'v SchemaRef option \<Rightarrow> 'v SchemaRefs \<Rightarrow> nat set \<Rightarrow> bool \<times> nat" where
  "findIndenticalSchema schemaRef1 schemasRefs2 matched =
     findIndenticalSchema_loop 0 schemaRef1 schemasRefs2 matched"

fun getGroupDifference_loop ::
  "nat \<Rightarrow> 'v SchemaRefs \<Rightarrow> 'v SchemaRefs \<Rightarrow> nat list \<Rightarrow> nat set \<Rightarrow> nat list" where
  "getGroupDifference_loop index1 [] schemaRefs2 notContained matched = notContained"
| "getGroupDifference_loop index1 (schemaRef1 # rest) schemaRefs2 notContained matched =
     (case findIndenticalSchema schemaRef1 schemaRefs2 matched of
        (found, index2) \<Rightarrow>
          if \<not> found then
            getGroupDifference_loop (Suc index1) rest schemaRefs2 (notContained @ [index1]) matched
          else
            getGroupDifference_loop (Suc index1) rest schemaRefs2 notContained (insert index2 matched))"

text \<open>The error that \<^verbatim>\<open>getGroupDifference\<close> returns is always nil.\<close>

definition getGroupDifference :: "'v SchemaRefs \<Rightarrow> 'v SchemaRefs \<Rightarrow> 'e failure + nat list" where
  "getGroupDifference schemaRefs1 schemaRefs2 =
     Inr (getGroupDifference_loop 0 schemaRefs1 schemaRefs2 [] {})"

definition getSchemaListsInlineDiff ::
  "('c \<Rightarrow> 's \<Rightarrow> 'v SchemaRef option \<Rightarrow> 'v SchemaRef option \<Rightarrow> 'e failure + 'd) \<Rightarrow> ('d \<Rightarrow> bool) \<Rightarrow>
   'c \<Rightarrow> 's \<Rightarrow> 'v SchemaRefs \<Rightarrow> 'v SchemaRefs \<Rightarrow> 'e failure + 'd SchemaListDiff" where
  "getSchemaListsInlineDiff getSchemaDiff isEmpty config state schemaRefs1 schemaRefs2 =
     (case getGroupDifference schemaRefs2 schemaRefs1 of
        Inl err \<Rightarrow> Inl err
      | Inr added \<Rightarrow>
     (case getGroupDifference schemaRefs1 schemaRefs2 of
        Inl err \<Rightarrow> Inl err
      | Inr deleted \<Rightarrow>
     if length added = 1 \<and> length deleted = 1 then
       (case at_index schemaRefs1 (deleted ! 0) of
          Inl err \<Rightarrow> Inl err
        | Inr schemaRef1 \<Rightarrow>
       (case at_index schemaRefs2 (added ! 0) of
          Inl err \<Rightarrow> Inl err
        | Inr schemaRef2 \<Rightarrow>
       (case getSchemaDiff config state schemaRef1 schemaRef2 of
          Inl err \<Rightarrow> Inl err
        | Inr d \<Rightarrow>
            if isEmpty d then Inr SchemaListDiff_zero
            else Inr \<lparr>Added = 0, Deleted = 0,
                      Modified = [CHR ''#'' # showNat (1 + deleted ! 0) \<mapsto> d]\<rparr>)))
     else
       Inr \<lparr>Added = of_nat (length added), Deleted = of_nat (length deleted),
            Modified = Map.empty\<rparr>))"

section \<open>The schema list diff\<close>

definition getSchemaListsDiffInternal ::
  "('c \<Rightarrow> 's \<Rightarrow> 'v SchemaRef option \<Rightarrow> 'v SchemaRef option \<Rightarrow> 'e failure + 'd) \<Rightarrow> ('d \<Rightarrow> bool) \<Rightarrow>
   'c \<Rightarrow> 's \<Rightarrow> 'v SchemaRefs \<Rightarrow> 'v SchemaRefs \<Rightarrow> 'e failure + 'd SchemaListDiff option" where
  "getSchemaListsDiffInternal getSchemaDiff isEmpty config state schemaRefs1 schemaRefs2 =
     (case getSchemaListsRefsDiff getSchemaDiff isEmpty config state
             (filterSchemaRefs schemaRefs1 isSchemaRef) (filterSchemaRefs schemaRefs2 isSchemaRef) of
        Inl err \<Rightarrow> Inl err
      | Inr diffRefs \<Rightarrow>
          (case getSchemaListsInlineDiff getSchemaDiff isEmpty config state
                  (filterSchemaRefs schemaRefs1 isSchemaInline) (filterSchemaRefs schemaRefs2 isSchemaInline) of
             Inl err \<Rightarrow> Inl err
           | Inr diffInline \<Rightarrow> combine diffRefs diffInline))"

definition getSchemaListsDiff ::
  "('c \<Rightarrow> 's \<Rightarrow> 'v SchemaRef option \<Rightarrow> 'v SchemaRef option \<Rightarrow> 'e failure + 'd) \<Rightarrow> ('d \<Rightarrow> bool) \<Rightarrow>
   'c \<Rightarrow> 's \<Rightarrow> 'v SchemaRefs \<Rightarrow> 'v SchemaRefs \<Rightarrow> 'e failure + 'd SchemaListDiff option" where
  "getSchemaListsDiff getSchemaDiff isEmpty config state schemaRefs1 schemaRefs2 =
     (case getSchemaListsDiffInternal getSchemaDiff isEmpty config state schemaRefs1 schemaRefs2 of
        Inl err \<Rightarrow> Inl err
      | Inr diff \<Rightarrow> if Empty diff then Inr None else Inr diff)"

section \<open>DiffResult\<close>

text \<open>
  \<^verbatim>\<open>ModifiedEndpoints\<close> is a Go map from the endpoint to its diff; the type of the
  endpoint diffs is the parameter \<open>'m\<close>. A slice is a list: the nil slice and the empty
  slice both have length 0, are both left out of the JSON output, and are both \<open>[]\<close>.
\<close>

type_synonym 'm ModifiedEndpoints = "string \<rightharpoonup> 'm"

record 'm DiffResult =
  AddedEndpoints :: "string list"
  DeletedEndpoints :: "string list"
  ModifiedEndpoints :: "'m ModifiedEndpoints"

definition DiffResult_empty :: "'m DiffResult \<Rightarrow> bool" where
  "DiffResult_empty diffResult =
     (length (AddedEndpoints diffResult) = 0 \<and>
      length (DeletedEndpoints diffResult) = 0 \<and>
      ModifiedEndpoints diffResult = Map.empty)"

definition newDiffResult :: "'m DiffResult" where
  "newDiffResult = \<lparr>AddedEndpoints = [], DeletedEndpoints = [], ModifiedEndpoints = Map.empty\<rparr>"

definition addAddedEndpoint :: "'m DiffResult \<Rightarrow> string \<Rightarrow> 'm DiffResult" where
  "addAddedEndpoint diffResult endpoint =
     diffResult\<lparr>AddedEndpoints := AddedEndpoints diffResult @ [endpoint]\<rparr>"

definition addDeletedEndpoint :: "'m DiffResult \<Rightarrow> string \<Rightarrow> 'm DiffResult" where
  "addDeletedEndpoint diffResult endpoint =
     diffResult\<lparr>DeletedEndpoints := DeletedEndpoints diffResult @ [endpoint]\<rparr>"

text \<open>
  Package \<^verbatim>\<open>regexp\<close> is Go's library: \<open>Compile\<close> returns the compiled expression or
  an error, \<open>MatchString r s\<close> says whether \<open>s\<close> has a match of \<open>r\<close>. Both are
  parameters.
\<close>

fun filterEndpoints_loop :: "('r \<Rightarrow> string \<Rightarrow> bool) \<Rightarrow> string list \<Rightarrow> 'r \<Rightarrow> string list \<Rightarrow> string list" where
  "filterEndpoints_loop MatchString [] r result = result"
| "filterEndpoints_loop MatchString (endpoint # rest) r result =
     filterEndpoints_loop MatchString rest r
       (if MatchString r endpoint then result @ [endpoint] else result)"

definition filterEndpoints :: "('r \<Rightarrow> string \<Rightarrow> bool) \<Rightarrow> string list \<Rightarrow> 'r \<Rightarrow> string list" where
  "filterEndpoints MatchString endpoints r = filterEndpoints_loop MatchString endpoints r []"

text \<open>
  The loop of \<^verbatim>\<open>filterModifiedEndpoints\<close> copies an entry to the new map when its key
  matches; the entries have distinct keys, so the order of the loop does not show.
\<close>

definition filterModifiedEndpoints ::
  "('r \<Rightarrow> string \<Rightarrow> bool) \<Rightarrow> 'm ModifiedEndpoints \<Rightarrow> 'r \<Rightarrow> 'm ModifiedEndpoints" where
  "filterModifiedEndpoints MatchString modifiedEndpoints r =
     (\<lambda>endpoint. case modifiedEndpoints endpoint of
        None \<Rightarrow> None
      | Some endpointDiff \<Rightarrow> if MatchString r endpoint then Some endpointDiff else None)"

text \<open>
  \<^verbatim>\<open>log.Errorf("Failed to compile filter regex '%s' with '%v'", filter, err)\<close>
  writes one entry to the log; the entry is kept with its two arguments.
\<close>

datatype 'x log_entry = Failed_to_compile_filter_regex string 'x

text \<open>
  \<^verbatim>\<open>FilterByRegex\<close> changes the \<^verbatim>\<open>DiffResult\<close> in place and returns nothing: the
  model returns what was logged and the new \<^verbatim>\<open>DiffResult\<close>.
\<close>

definition FilterByRegex ::
  "(string \<Rightarrow> 'x + 'r) \<Rightarrow> ('r \<Rightarrow> string \<Rightarrow> bool) \<Rightarrow> 'm DiffResult \<Rightarrow> string \<Rightarrow>
   'x log_entry list \<times> 'm DiffResult" where
  "FilterByRegex Compile MatchString diffResult flt =
     (case Compile flt of
        Inl err \<Rightarrow> ([Failed_to_compile_filter_regex flt err], diffResult)
      | Inr r \<Rightarrow>
          ([], \<lparr>AddedEndpoints = filterEndpoints MatchString (AddedEndpoints diffResult) r,
                DeletedEndpoints = filterEndpoints MatchString (DeletedEndpoints diffResult) r,
                ModifiedEndpoints = filterModifiedEndpoints MatchString (ModifiedEndpoints diffResult) r\<rparr>))"

text \<open>
  Modelled from the spec: the function that diffs the endpoints of two documents and fills
  the \<^verbatim>\<open>DiffResult\<close> is not among the sources. For the spec (sections 3 and 6) a
  document maps each path to its operations by HTTP method, and the key of an endpoint is
  the string "METHOD PATH". A document is the list of its entries, in the order in which
  a loop over the Go maps delivers them.
\<close>

type_synonym 'o document = "(string \<times> (string \<times> 'o) list) list"

definition endpoints_of :: "'o document \<Rightarrow> (string \<times> 'o) list" where
  "endpoints_of document =
     concat (map (\<lambda>(path, operations).
       map (\<lambda>(method, operation). (method @ '' '' @ path, operation)) operations) document)"

text \<open>
  Modelled from the spec: for section 4.1 the added keys are the "keys only in the second"
  mapping and the deleted keys the "keys only in the first", and the "output containers for
  \<open>added\<close>/\<open>deleted\<close> must be sorted deterministically (e.g., lexicographically by
  key)". The order on strings is the one of Go, byte by byte.
\<close>

definition endpoints_only_in :: "(string \<times> 'o) list \<Rightarrow> (string \<times> 'o) list \<Rightarrow> string list" where
  "endpoints_only_in endpoints other =
     sort (filter (\<lambda>endpoint. map_of other endpoint = None) (remdups (map fst endpoints)))"

text \<open>
  Modelled from the spec: section 4.5 builds the two endpoint maps and applies the keyed
  diff of section 4.1, where "a key is placed in \<open>modified\<close> only if its value-diff is
  non-empty". The operation diff and its emptiness check are parameters. The added and
  deleted keys go through \<^verbatim>\<open>addAddedEndpoint\<close> and \<^verbatim>\<open>addDeletedEndpoint\<close> of the
  sources, starting from \<^verbatim>\<open>newDiffResult\<close>.
\<close>

definition endpoints_diff ::
  "('o \<Rightarrow> 'o \<Rightarrow> 'm) \<Rightarrow> ('m \<Rightarrow> bool) \<Rightarrow> 'o document \<Rightarrow> 'o document \<Rightarrow> 'm DiffResult" where
  "endpoints_diff getOperationDiff isEmpty document1 document2 =
     (let endpoints1 = endpoints_of document1;
          endpoints2 = endpoints_of document2;
          added = fold (\<lambda>endpoint diffResult. addAddedEndpoint diffResult endpoint)
                    (endpoints_only_in endpoints2 endpoints1) newDiffResult;
          deleted = fold (\<lambda>endpoint diffResult. addDeletedEndpoint diffResult endpoint)
                    (endpoints_only_in endpoints1 endpoints2) added
      in deleted\<lparr>ModifiedEndpoints :=
           (\<lambda>endpoint. case map_of endpoints1 endpoint of
              None \<Rightarrow> None
            | Some operation1 \<Rightarrow>
                (case map_of endpoints2 endpoint of
                   None \<Rightarrow> None
                 | Some operation2 \<Rightarrow>
                     if isEmpty (getOperationDiff operation1 operation2) then None
                     else Some (getOperationDiff operation1 operation2)))\<rparr>)"

section \<open>MethodDiff\<close>

text \<open>
  \<^verbatim>\<open>openapi3.Operation\<close> belongs to kin-openapi; the record has the fields that
  \<^verbatim>\<open>getMethodDiff\<close> reads. The types of the parameters, request body, responses,
  callbacks and servers are type parameters.
\<close>

record ('p, 'b, 'r, 'c, 's) Operation =
  Tags :: "string list"
  Summary :: string
  Description :: string
  OperationID :: string
  Parameters :: 'p
  RequestBody :: 'b
  Responses :: 'r
  Callbacks :: 'c
  Deprecated :: bool
  Servers :: 's

text \<open>
  Every field of \<^verbatim>\<open>MethodDiff\<close> is a pointer to a sub-diff, \<open>None\<close> the nil pointer.
  The sub-diff types are not among the sources and are type parameters.
\<close>

record ('sd, 'vd, 'pd, 'bd, 'rd, 'cd, 'ed) MethodDiff =
  TagsDiff :: "'sd option"
  SummaryDiff :: "'vd option"
  DescriptionDiff :: "'vd option"
  OperationIDDiff :: "'vd option"
  ParametersDiff :: "'pd option"
  RequestBodyDiff :: "'bd option"
  ResponsesDiff :: "'rd option"
  CallbacksDiff :: "'cd option"
  DeprecatedDiff :: "'vd option"
  ServersDiff :: "'ed option"

definition newMethodDiff :: "('sd, 'vd, 'pd, 'bd, 'rd, 'cd, 'ed) MethodDiff" where
  "newMethodDiff =
     \<lparr>TagsDiff = None, SummaryDiff = None, DescriptionDiff = None, OperationIDDiff = None,
      ParametersDiff = None, RequestBodyDiff = None, ResponsesDiff = None, CallbacksDiff = None,
      DeprecatedDiff = None, ServersDiff = None\<rparr>"

text \<open>
  \<^verbatim>\<open>*methodDiff == MethodDiff{}\<close> compares the struct with its zero value, pointer by
  pointer; on the nil receiver the dereference panics.
\<close>

fun MethodDiff_empty :: "('sd, 'vd, 'pd, 'bd, 'rd, 'cd, 'ed) MethodDiff option \<Rightarrow> 'e failure + bool" where
  "MethodDiff_empty None = Inl NilPointerDereference"
| "MethodDiff_empty (Some methodDiff) = Inr (methodDiff = newMethodDiff)"

text \<open>
  \<^verbatim>\<open>getValueDiff\<close> takes two \<^verbatim>\<open>interface{}\<close> values; \<^verbatim>\<open>getMethodDiff\<close> passes
  strings and booleans.
\<close>

datatype go_value = StringValue string | BoolValue bool

text \<open>
  The functions that compute the sub-diffs are not among the sources: they are taken as
  parameters, gathered in one record, and so are the emptiness checks of the sub-diffs.
  Each function returns a pointer to its diff, and each check has a pointer receiver.
\<close>

record ('p, 'b, 'r, 'c, 's, 'sd, 'vd, 'pd, 'bd, 'rd, 'cd, 'ed) SubDiffs =
  getStringsDiff :: "string list \<Rightarrow> string list \<Rightarrow> 'sd option"
  getValueDiff :: "go_value \<Rightarrow> go_value \<Rightarrow> 'vd option"
  getParametersDiff :: "'p \<Rightarrow> 'p \<Rightarrow> 'pd option"
  getRequestBodyDiff :: "'b \<Rightarrow> 'b \<Rightarrow> 'bd option"
  getResponsesDiff :: "'r \<Rightarrow> 'r \<Rightarrow> 'rd option"
  getCallbacksDiff :: "'c \<Rightarrow> 'c \<Rightarrow> 'cd option"
  getServersDiff :: "'s \<Rightarrow> 's \<Rightarrow> 'ed option"

record ('sd, 'vd, 'pd, 'bd, 'rd, 'cd, 'ed) SubDiffChecks =
  StringsDiff_empty :: "'sd option \<Rightarrow> bool"
  ValueDiff_empty :: "'vd option \<Rightarrow> bool"
  ParametersDiff_empty :: "'pd option \<Rightarrow> bool"
  RequestBodyDiff_empty :: "'bd option \<Rightarrow> bool"
  ResponsesDiff_empty :: "'rd option \<Rightarrow> bool"
  CallbacksDiff_empty :: "'cd option \<Rightarrow> bool"
  ServersDiff_empty :: "'ed option \<Rightarrow> bool"

text \<open>
  \<^verbatim>\<open>if diff := ...; !diff.empty() { result.Field = diff }\<close>: the field keeps its nil
  when the diff is empty.
\<close>

definition set_unless_empty :: "('a option \<Rightarrow> bool) \<Rightarrow> 'a option \<Rightarrow> 'a option" where
  "set_unless_empty is_empty diff = (if \<not> is_empty diff then diff else None)"

text \<open>Reading a field of a nil operation panics.\<close>

fun getMethodDiff ::
  "('sd, 'vd, 'pd, 'bd, 'rd, 'cd, 'ed) SubDiffChecks \<Rightarrow>
   ('p, 'b, 'r, 'c, 's, 'sd, 'vd, 'pd, 'bd, 'rd, 'cd, 'ed) SubDiffs \<Rightarrow>
   ('p, 'b, 'r, 'c, 's) Operation option \<Rightarrow> ('p, 'b, 'r, 'c, 's) Operation option \<Rightarrow>
   'e failure + ('sd, 'vd, 'pd, 'bd, 'rd, 'cd, 'ed) MethodDiff" where
  "getMethodDiff chk sub (Some pathItem1) (Some pathItem2) =
     Inr \<lparr>TagsDiff = getStringsDiff sub (Tags pathItem1) (Tags pathItem2),
          SummaryDiff = getValueDiff sub (StringValue (Summary pathItem1)) (StringValue (Summary pathItem2)),
          DescriptionDiff = getValueDiff sub (StringValue (Description pathItem1)) (StringValue (Description pathItem2)),
          OperationIDDiff = getValueDiff sub (StringValue (OperationID pathItem1)) (StringValue (OperationID pathItem2)),
          ParametersDiff = set_unless_empty (ParametersDiff_empty chk)
            (getParametersDiff sub (Parameters pathItem1) (Parameters pathItem2)),
          RequestBodyDiff = set_unless_empty (RequestBodyDiff_empty chk)
            (getRequestBodyDiff sub (RequestBody pathItem1) (RequestBody pathItem2)),
          ResponsesDiff = set_unless_empty (ResponsesDiff_empty chk)
            (getResponsesDiff sub (Responses pathItem1) (Responses pathItem2)),
          CallbacksDiff = set_unless_empty (CallbacksDiff_empty chk)
            (getCallbacksDiff sub (Callbacks pathItem1) (Callbacks pathItem2)),
          DeprecatedDiff = getValueDiff sub (BoolValue (Deprecated pathItem1)) (BoolValue (Deprecated pathItem2)),
          ServersDiff = set_unless_empty (ServersDiff_empty chk)
            (getServersDiff sub (Servers pathItem1) (Servers pathItem2))\<rparr>"
| "getMethodDiff chk sub pathItem1 pathItem2 = Inl NilPointerDereference"

text \<open>
  The emptiness check as the spec words it (section 4.4), to compare with
  \<open>MethodDiff_empty\<close>: "a conjunction of explicit emptiness checks", one for each sub-diff.
\<close>

definition MethodDiff_empty_by_sub_diffs ::
  "('sd, 'vd, 'pd, 'bd, 'rd, 'cd, 'ed) SubDiffChecks \<Rightarrow> ('sd, 'vd, 'pd, 'bd, 'rd, 'cd, 'ed) MethodDiff \<Rightarrow> bool" where
  "MethodDiff_empty_by_sub_diffs chk methodDiff =
     (StringsDiff_empty chk (TagsDiff methodDiff) \<and>
      ValueDiff_empty chk (SummaryDiff methodDiff) \<and>
      ValueDiff_empty chk (DescriptionDiff methodDiff) \<and>
      ValueDiff_empty chk (OperationIDDiff methodDiff) \<and>
      ParametersDiff_empty chk (ParametersDiff methodDiff) \<and>
      RequestBodyDiff_empty chk (RequestBodyDiff methodDiff) \<and>
      ResponsesDiff_empty chk (ResponsesDiff methodDiff) \<and>
      CallbacksDiff_empty chk (CallbacksDiff methodDiff) \<and>
      ValueDiff_empty chk (DeprecatedDiff methodDiff) \<and>
      ServersDiff_empty chk (ServersDiff methodDiff))"

section \<open>Sample parameters\<close>

text \<open>
  To run the functions on concrete lists, a small schema and its diff stand for what the
  sources leave out: a schema is a pair of its type and its extensions, and the sample
  diff compares the types only (nil when they agree), so that two schemas may differ by
  \<^verbatim>\<open>reflect.DeepEqual\<close> and still have an empty diff.
\<close>

type_synonym sample_schema = "string \<times> string"

definition sample_type :: "sample_schema SchemaRef option \<Rightarrow> string" where
  "sample_type schemaRef = (case schemaRef of None \<Rightarrow> [] | Some s \<Rightarrow> fst (Value s))"

definition sample_getSchemaDiff ::
  "unit \<Rightarrow> unit \<Rightarrow> sample_schema SchemaRef option \<Rightarrow> sample_schema SchemaRef option \<Rightarrow>
   string failure + (string \<times> string) option" where
  "sample_getSchemaDiff config state schemaRef1 schemaRef2 =
     Inr (if sample_type schemaRef1 = sample_type schemaRef2 then None
          else Some (sample_type schemaRef1, sample_type schemaRef2))"

definition sample_isEmpty :: "(string \<times> string) option \<Rightarrow> bool" where
  "sample_isEmpty d = (d = None)"

definition inline_schema :: "string \<Rightarrow> string \<Rightarrow> sample_schema SchemaRef option" where
  "inline_schema t x = Some \<lparr>Ref = [], Value = (t, x)\<rparr>"

definition ref_schema :: "string \<Rightarrow> string \<Rightarrow> sample_schema SchemaRef option" where
  "ref_schema name t = Some \<lparr>Ref = name, Value = (t, [])\<rparr>"

text \<open>
  A stand-in for package \<^verbatim>\<open>regexp\<close> that knows three patterns, with Go's answers on
  them: \<^verbatim>\<open>.*\<close> matches every string, \<^verbatim>\<open>^GET \<close> the strings that start with
  \<^verbatim>\<open>GET \<close>, and \<^verbatim>\<open>[\<close> does not compile. It takes every other pattern as one that
  does not compile.
\<close>

datatype sample_regexp = Match_all | Match_prefix string

definition sample_Compile :: "string \<Rightarrow> string + sample_regexp" where
  "sample_Compile p =
     (if p = ''.*'' then Inr Match_all
      else if p = ''^GET '' then Inr (Match_prefix ''GET '')
      else if p = ''['' then Inl ''missing closing ]''
      else Inl ''not a sample pattern'')"

fun sample_MatchString :: "sample_regexp \<Rightarrow> string \<Rightarrow> bool" where
  "sample_MatchString Match_all s = True"
| "sample_MatchString (Match_prefix p) s = (take (length p) s = p)"

text \<open>Sample sub-diffs of a \<^verbatim>\<open>MethodDiff\<close>: a list of changes, empty when it is nil or \<open>[]\<close>.\<close>

definition sample_empty :: "string list option \<Rightarrow> bool" where
  "sample_empty d = (case d of None \<Rightarrow> True | Some changes \<Rightarrow> changes = [])"

definition sample_checks ::
  "(string list, string list, string list, string list, string list, string list, string list) SubDiffChecks" where
  "sample_checks =
     \<lparr>StringsDiff_empty = sample_empty, ValueDiff_empty = sample_empty,
      ParametersDiff_empty = sample_empty, RequestBodyDiff_empty = sample_empty,
      ResponsesDiff_empty = sample_empty, CallbacksDiff_empty = sample_empty,
      ServersDiff_empty = sample_empty\<rparr>"

text \<open>The sample diff of two values: nil when they are equal, else one change.\<close>

definition sample_diff :: "'a \<Rightarrow> 'a \<Rightarrow> string list option" where
  "sample_diff x y = (if x = y then None else Some [''changed''])"

text \<open>
  The sample diff of two lists puts the result behind a pointer also when nothing changed,
  as a function that returns a new struct does.
\<close>

definition sample_list_diff :: "string list \<Rightarrow> string list \<Rightarrow> string list option" where
  "sample_list_diff xs ys = Some (if xs = ys then [] else [''changed''])"

definition sample_sub_diffs ::
  "(string list, string list, string list, string list, string list,
    string list, string list, string list, string list, string list, string list, string list) SubDiffs" where
  "sample_sub_diffs =
     \<lparr>getStringsDiff = sample_diff, getValueDiff = sample_diff,
      getParametersDiff = sample_list_diff, getRequestBodyDiff = sample_list_diff,
      getResponsesDiff = sample_list_diff, getCallbacksDiff = sample_list_diff,
      getServersDiff = sample_list_diff\<rparr>"

definition sample_operation ::
  "string \<Rightarrow> string list \<Rightarrow> (string list, string list, string list, string list, string list) Operation" where
  "sample_operation summary params =
     \<lparr>Tags = [''pets''], Summary = summary, Description = [], OperationID = ''listPets'',
      Parameters = params, RequestBody = [], Responses = [''200''], Callbacks = [],
      Deprecated = False, Servers = []\<rparr>"

section \<open>The partition into referenced and inline schemas\<close>

text \<open>
  The loop of \<^verbatim>\<open>filterSchemaRefs\<close> collects the elements that the predicate accepts,
  in their order; the function returns its argument.
\<close>

lemma filterSchemaRefs_loop_filter:
  "filterSchemaRefs_loop schemaRefs flt result = result @ filter flt schemaRefs"
  by (induction schemaRefs arbitrary: result) auto

lemma filterSchemaRefs_returns_its_argument:
  "filterSchemaRefs schemaRefs flt = schemaRefs"
  by (simp add: filterSchemaRefs_def)

text \<open>
  C2. The claim is that \<^verbatim>\<open>filterSchemaRefs\<close> returns exactly the elements that satisfy
  the predicate, so that the diff by reference sees the referenced schemas only and the
  inline diff the inline schemas only. The code does not: with \<^verbatim>\<open>isSchemaInline\<close>
  it returns a schema with a reference, which the predicate rejects, while its loop has
  collected the inline schema alone. So the inline diff also compares the schemas with a
  reference: for one referenced schema on each side, under two names, the list diff counts
  one added and one deleted and reports the pair once more as modified under \<^verbatim>\<open>#1\<close>.
\<close>

theorem filterSchemaRefs_returns_rejected:
  "filterSchemaRefs [ref_schema ''#/components/schemas/Pet'' ''object'', inline_schema ''string'' []] isSchemaInline =
     [ref_schema ''#/components/schemas/Pet'' ''object'', inline_schema ''string'' []] \<and>
   \<not> isSchemaInline (ref_schema ''#/components/schemas/Pet'' ''object'') \<and>
   filterSchemaRefs_loop [ref_schema ''#/components/schemas/Pet'' ''object'', inline_schema ''string'' []] isSchemaInline [] =
     [inline_schema ''string'' []] \<and>
   getSchemaListsDiffInternal sample_getSchemaDiff sample_isEmpty () ()
     [ref_schema ''#/components/schemas/Pet'' ''object''] [ref_schema ''#/components/schemas/Dog'' ''string''] =
     Inr (Some \<lparr>Added = 1, Deleted = 1, Modified = [''#1'' \<mapsto> Some (''object'', ''string'')]\<rparr>)"
  by (simp add: filterSchemaRefs_def ref_schema_def inline_schema_def getSchemaListsDiffInternal_def
      getSchemaListsRefsDiff_def toSchemaRefsMap_def getSchemaMapsRefsDiff_def
      getSchemaListsInlineDiff_def getGroupDifference_def findIndenticalSchema_def
      alreadyMatched_def at_index_def sample_getSchemaDiff_def sample_type_def
      sample_isEmpty_def combine_def ModifiedSchemas_combine_def showNat.simps digit_char_def)

section \<open>The inline diff\<close>

text \<open>Every index that \<^verbatim>\<open>getGroupDifference\<close> returns is a position in its first list.\<close>

lemma getGroupDifference_loop_range:
  "set (getGroupDifference_loop k xs ys acc m) \<subseteq> set acc \<union> {k..<k + length xs}"
proof (induction xs arbitrary: k acc m)
  case Nil
  then show ?case by simp
next
  case (Cons x xs)
  obtain found index2 where f: "findIndenticalSchema x ys m = (found, index2)"
    by (cases "findIndenticalSchema x ys m")
  show ?case
  proof (cases found)
    case True
    have "set (getGroupDifference_loop (Suc k) xs ys acc (insert index2 m))
            \<subseteq> set acc \<union> {Suc k..<Suc k + length xs}"
      by (rule Cons.IH)
    with True f show ?thesis by auto
  next
    case False
    have "set (getGroupDifference_loop (Suc k) xs ys (acc @ [k]) m)
            \<subseteq> set (acc @ [k]) \<union> {Suc k..<Suc k + length xs}"
      by (rule Cons.IH)
    with False f show ?thesis by auto
  qed
qed

lemma getGroupDifference_in_range:
  assumes "getGroupDifference xs ys = Inr is" and "i \<in> set is"
  shows "i < length xs"
  using assms getGroupDifference_loop_range [of 0 xs ys "[]" "{}"]
  by (auto simp add: getGroupDifference_def)

text \<open>
  C1, as amended. When exactly one element is unmatched on each side and the diff of the
  two is empty, \<^verbatim>\<open>getSchemaListsInlineDiff\<close> returns the zero \<^verbatim>\<open>SchemaListDiff\<close>:
  nothing added, nothing deleted and no modified entry. The pair is not reported.
\<close>

theorem inline_pair_with_empty_diff_is_dropped:
  fixes getSchemaDiff :: "'c \<Rightarrow> 's \<Rightarrow> 'v SchemaRef option \<Rightarrow> 'v SchemaRef option \<Rightarrow> 'e failure + 'd"
  assumes added: "(getGroupDifference schemaRefs2 schemaRefs1 :: 'e failure + nat list) = Inr [j]"
    and deleted: "(getGroupDifference schemaRefs1 schemaRefs2 :: 'e failure + nat list) = Inr [i]"
    and diff: "getSchemaDiff config state (schemaRefs1 ! i) (schemaRefs2 ! j) = Inr d"
    and empty: "isEmpty d"
  shows "getSchemaListsInlineDiff getSchemaDiff isEmpty config state schemaRefs1 schemaRefs2 =
           Inr \<lparr>Added = 0, Deleted = 0, Modified = Map.empty\<rparr>"
proof -
  have i: "i < length schemaRefs1"
    using getGroupDifference_in_range [OF deleted] by simp
  have j: "j < length schemaRefs2"
    using getGroupDifference_in_range [OF added] by simp
  show ?thesis
    using added deleted diff empty i j
    by (simp add: getSchemaListsInlineDiff_def at_index_def SchemaListDiff_zero_def)
qed

text \<open>The theorem of C1 at two lists whose second schemas differ in their extensions only.\<close>

theorem inline_pair_with_empty_diff_is_dropped_witness:
  "getSchemaListsInlineDiff sample_getSchemaDiff sample_isEmpty () ()
     [inline_schema ''string'' [], inline_schema ''integer'' ''x-a'']
     [inline_schema ''string'' [], inline_schema ''integer'' ''x-b''] =
   Inr \<lparr>Added = 0, Deleted = 0, Modified = Map.empty\<rparr>"
proof -
  let ?A = "[inline_schema ''string'' [], inline_schema ''integer'' ''x-a'']"
  let ?B = "[inline_schema ''string'' [], inline_schema ''integer'' ''x-b'']"
  have a: "(getGroupDifference ?B ?A :: string failure + nat list) = Inr [1]"
    by (simp add: getGroupDifference_def findIndenticalSchema_def alreadyMatched_def inline_schema_def)
  have d: "(getGroupDifference ?A ?B :: string failure + nat list) = Inr [1]"
    by (simp add: getGroupDifference_def findIndenticalSchema_def alreadyMatched_def inline_schema_def)
  have g: "sample_getSchemaDiff () () (?A ! 1) (?B ! 1) = Inr None"
    by (simp add: sample_getSchemaDiff_def sample_type_def inline_schema_def)
  have e: "sample_isEmpty None"
    by (simp add: sample_isEmpty_def)
  show ?thesis
    by (rule inline_pair_with_empty_diff_is_dropped
        [where getSchemaDiff = sample_getSchemaDiff and isEmpty = sample_isEmpty
           and config = "()" and state = "()", OF a d g e])
qed

text \<open>
  C1 as the spec states it, that such a pair is still reported as modified, fails on these
  lists: one element is unmatched on each side, their diff is empty, and the result has no
  modified entry.
\<close>

theorem inline_pair_with_empty_diff_counterexample:
  "(getGroupDifference
      [inline_schema ''string'' [], inline_schema ''integer'' ''x-b'']
      [inline_schema ''string'' [], inline_schema ''integer'' ''x-a''] :: string failure + nat list) = Inr [1] \<and>
   (getGroupDifference
      [inline_schema ''string'' [], inline_schema ''integer'' ''x-a'']
      [inline_schema ''string'' [], inline_schema ''integer'' ''x-b''] :: string failure + nat list) = Inr [1] \<and>
   sample_getSchemaDiff () () (inline_schema ''integer'' ''x-a'') (inline_schema ''integer'' ''x-b'') = Inr None \<and>
   sample_isEmpty None \<and>
   getSchemaListsInlineDiff sample_getSchemaDiff sample_isEmpty () ()
     [inline_schema ''string'' [], inline_schema ''integer'' ''x-a'']
     [inline_schema ''string'' [], inline_schema ''integer'' ''x-b''] =
   Inr \<lparr>Added = 0, Deleted = 0, Modified = Map.empty\<rparr>"
  by (simp add: getSchemaListsInlineDiff_def getGroupDifference_def findIndenticalSchema_def
      alreadyMatched_def at_index_def inline_schema_def sample_getSchemaDiff_def sample_type_def
      sample_isEmpty_def SchemaListDiff_zero_def)

text \<open>
  On lists of inline schemas the diff by reference finds nothing, and the schema list diff
  is the inline diff.
\<close>

lemma toSchemaRefsMap_loop_inline:
  "\<forall>schemaRef \<in> set schemaRefs. isSchemaInline schemaRef \<Longrightarrow>
     toSchemaRefsMap_loop schemaRefs result = Inr result"
  by (induction schemaRefs arbitrary: result) auto

lemma getSchemaListsRefsDiff_inline:
  assumes "\<forall>schemaRef \<in> set schemaRefs1. isSchemaInline schemaRef"
    and "\<forall>schemaRef \<in> set schemaRefs2. isSchemaInline schemaRef"
  shows "getSchemaListsRefsDiff getSchemaDiff isEmpty config state schemaRefs1 schemaRefs2 =
           Inr SchemaListDiff_zero"
  using assms
  by (simp add: getSchemaListsRefsDiff_def toSchemaRefsMap_def toSchemaRefsMap_loop_inline
      getSchemaMapsRefsDiff_def SchemaListDiff_zero_def)

lemma combine_zero:
  "combine SchemaListDiff_zero diff = Inr (Some diff)"
  by (simp add: combine_def SchemaListDiff_zero_def ModifiedSchemas_combine_def)

lemma getSchemaListsDiffInternal_inline:
  assumes "\<forall>schemaRef \<in> set schemaRefs1. isSchemaInline schemaRef"
    and "\<forall>schemaRef \<in> set schemaRefs2. isSchemaInline schemaRef"
  shows "getSchemaListsDiffInternal getSchemaDiff isEmpty config state schemaRefs1 schemaRefs2 =
           (case getSchemaListsInlineDiff getSchemaDiff isEmpty config state schemaRefs1 schemaRefs2 of
              Inl err \<Rightarrow> Inl err
            | Inr diff \<Rightarrow> Inr (Some diff))"
  using assms
  by (simp add: getSchemaListsDiffInternal_def filterSchemaRefs_returns_its_argument
      getSchemaListsRefsDiff_inline combine_zero split: sum.splits)

text \<open>
  C3, as amended. For the lists \<open>[S1, S2]\<close> and \<open>[S1, S3]\<close> with \<open>S2\<close> different from
  \<open>S3\<close>, the inline diff has nothing added and nothing deleted, and when the diff of \<open>S2\<close>
  and \<open>S3\<close> is not empty it has exactly one modified entry, that diff under the key
  \<^verbatim>\<open>#2\<close>: the key is the position of \<open>S2\<close> in its list, counted from one. When
  \<^verbatim>\<open>getSchemaDiff\<close> fails, so does the inline diff; when the diff is empty, there is no
  modified entry. When the three schemas are inline, \<^verbatim>\<open>getSchemaListsDiff\<close> returns
  the same diff, and nil when the diff of \<open>S2\<close> and \<open>S3\<close> is empty.
\<close>

theorem inline_pair_is_modified_under_its_position:
  fixes getSchemaDiff :: "'c \<Rightarrow> 's \<Rightarrow> 'v SchemaRef option \<Rightarrow> 'v SchemaRef option \<Rightarrow> 'e failure + 'd"
  assumes "S2 \<noteq> S3"
  shows "getSchemaListsInlineDiff getSchemaDiff isEmpty config state [S1, S2] [S1, S3] =
     (case getSchemaDiff config state S2 S3 of
        Inl err \<Rightarrow> Inl err
      | Inr d \<Rightarrow>
          if isEmpty d then Inr \<lparr>Added = 0, Deleted = 0, Modified = Map.empty\<rparr>
          else Inr \<lparr>Added = 0, Deleted = 0, Modified = [''#2'' \<mapsto> d]\<rparr>) \<and>
     (isSchemaInline S1 \<and> isSchemaInline S2 \<and> isSchemaInline S3 \<longrightarrow>
        getSchemaListsDiff getSchemaDiff isEmpty config state [S1, S2] [S1, S3] =
        (case getSchemaDiff config state S2 S3 of
           Inl err \<Rightarrow> Inl err
         | Inr d \<Rightarrow>
             if isEmpty d then Inr None
             else Inr (Some \<lparr>Added = 0, Deleted = 0, Modified = [''#2'' \<mapsto> d]\<rparr>)))"
proof -
  have inline: "getSchemaListsInlineDiff getSchemaDiff isEmpty config state [S1, S2] [S1, S3] =
     (case getSchemaDiff config state S2 S3 of
        Inl err \<Rightarrow> Inl err
      | Inr d \<Rightarrow>
          if isEmpty d then Inr \<lparr>Added = 0, Deleted = 0, Modified = Map.empty\<rparr>
          else Inr \<lparr>Added = 0, Deleted = 0, Modified = [''#2'' \<mapsto> d]\<rparr>)"
    using assms
    by (auto simp add: getSchemaListsInlineDiff_def getGroupDifference_def findIndenticalSchema_def
      alreadyMatched_def at_index_def showNat.simps digit_char_def SchemaListDiff_zero_def
      split: sum.splits)
  show ?thesis
    by (simp add: inline getSchemaListsDiff_def getSchemaListsDiffInternal_inline split: sum.splits)
qed

text \<open>The theorem of C3 at three sample schemas.\<close>

theorem inline_pair_is_modified_under_its_position_witness:
  "inline_schema ''integer'' [] \<noteq> inline_schema ''number'' [] \<and>
   isSchemaInline (inline_schema ''string'' []) \<and> isSchemaInline (inline_schema ''integer'' []) \<and>
   isSchemaInline (inline_schema ''number'' []) \<and>
   getSchemaListsInlineDiff sample_getSchemaDiff sample_isEmpty () ()
     [inline_schema ''string'' [], inline_schema ''integer'' []]
     [inline_schema ''string'' [], inline_schema ''number'' []] =
   Inr \<lparr>Added = 0, Deleted = 0, Modified = [''#2'' \<mapsto> Some (''integer'', ''number'')]\<rparr> \<and>
   getSchemaListsDiff sample_getSchemaDiff sample_isEmpty () ()
     [inline_schema ''string'' [], inline_schema ''integer'' []]
     [inline_schema ''string'' [], inline_schema ''number'' []] =
   Inr (Some \<lparr>Added = 0, Deleted = 0, Modified = [''#2'' \<mapsto> Some (''integer'', ''number'')]\<rparr>)"
proof -
  have h: "inline_schema ''integer'' [] \<noteq> inline_schema ''number'' []"
    by (simp add: inline_schema_def)
  have i: "isSchemaInline (inline_schema ''string'' []) \<and> isSchemaInline (inline_schema ''integer'' []) \<and>
   isSchemaInline (inline_schema ''number'' [])"
    by (simp add: inline_schema_def)
  have g: "sample_getSchemaDiff () () (inline_schema ''integer'' []) (inline_schema ''number'' []) =
      Inr (Some (''integer'', ''number''))"
    by (simp add: sample_getSchemaDiff_def sample_type_def inline_schema_def)
  have e: "\<not> sample_isEmpty (Some (''integer'', ''number''))"
    by (simp add: sample_isEmpty_def)
  show ?thesis
    using h i inline_pair_is_modified_under_its_position
      [where getSchemaDiff = sample_getSchemaDiff and isEmpty = sample_isEmpty
         and config = "()" and state = "()" and ?S1.0 = "inline_schema ''string'' []", OF h]
    by (simp add: g e)
qed

text \<open>
  C3 as the spec states it, with the key \<^verbatim>\<open>#1\<close>, fails on these lists: the modified
  entry is under the key \<^verbatim>\<open>#2\<close>.
\<close>

theorem inline_pair_key_counterexample:
  "getSchemaListsInlineDiff sample_getSchemaDiff sample_isEmpty () ()
     [inline_schema ''string'' [], inline_schema ''integer'' []]
     [inline_schema ''string'' [], inline_schema ''number'' []] =
     Inr \<lparr>Added = 0, Deleted = 0, Modified = [''#2'' \<mapsto> Some (''integer'', ''number'')]\<rparr> \<and>
   getSchemaListsInlineDiff sample_getSchemaDiff sample_isEmpty () ()
     [inline_schema ''string'' [], inline_schema ''integer'' []]
     [inline_schema ''string'' [], inline_schema ''number'' []] \<noteq>
     Inr \<lparr>Added = 0, Deleted = 0, Modified = [''#1'' \<mapsto> Some (''integer'', ''number'')]\<rparr>"
proof -
  have neq: "[''#2'' \<mapsto> Some (''integer'', ''number'')] \<noteq> [''#1'' \<mapsto> Some (''integer'', ''number'')]"
  proof
    assume "[''#2'' \<mapsto> Some (''integer'', ''number'')] = [''#1'' \<mapsto> Some (''integer'', ''number'')]"
    then have "[''#2'' \<mapsto> Some (''integer'', ''number'')] ''#1'' = [''#1'' \<mapsto> Some (''integer'', ''number'')] ''#1''"
      by simp
    then show False by simp
  qed
  have r: "getSchemaListsInlineDiff sample_getSchemaDiff sample_isEmpty () ()
     [inline_schema ''string'' [], inline_schema ''integer'' []]
     [inline_schema ''string'' [], inline_schema ''number'' []] =
     Inr \<lparr>Added = 0, Deleted = 0, Modified = [''#2'' \<mapsto> Some (''integer'', ''number'')]\<rparr>"
    by (simp add: getSchemaListsInlineDiff_def getGroupDifference_def findIndenticalSchema_def
      alreadyMatched_def at_index_def inline_schema_def sample_getSchemaDiff_def sample_type_def
      sample_isEmpty_def showNat.simps digit_char_def)
  show ?thesis using neq by (simp add: r)
qed

text \<open>
  The unmatched elements: \<^verbatim>\<open>findIndenticalSchema\<close> finds an equal element that is not
  yet matched exactly when there is one, so \<^verbatim>\<open>getGroupDifference\<close> leaves unmatched
  as many elements as the difference of the two lists as multisets has.
\<close>

lemma findIndenticalSchema_loop_found:
  "findIndenticalSchema_loop k x ys m = (True, i) \<Longrightarrow>
     k \<le> i \<and> i < k + length ys \<and> i \<notin> m \<and> ys ! (i - k) = x"
proof (induction ys arbitrary: k)
  case Nil
  then show ?case by simp
next
  case (Cons y ys)
  show ?case
  proof (cases "alreadyMatched k m \<or> x \<noteq> y")
    case True
    then have "findIndenticalSchema_loop (Suc k) x ys m = (True, i)"
      using Cons.prems by (auto split: if_splits)
    from Cons.IH [OF this] show ?thesis by (auto simp add: Suc_diff_le)
  next
    case False
    then show ?thesis using Cons.prems by (auto simp add: alreadyMatched_def)
  qed
qed

lemma findIndenticalSchema_loop_not_found:
  "findIndenticalSchema_loop k x ys m = (False, i) \<Longrightarrow>
     \<forall>j < length ys. k + j \<in> m \<or> ys ! j \<noteq> x"
proof (induction ys arbitrary: k)
  case Nil
  then show ?case by simp
next
  case (Cons y ys)
  have rest: "findIndenticalSchema_loop (Suc k) x ys m = (False, i)"
    using Cons.prems by (auto split: if_splits)
  have here: "k \<in> m \<or> y \<noteq> x"
    using Cons.prems by (auto simp add: alreadyMatched_def split: if_splits)
  show ?case
  proof (intro allI impI)
    fix j assume "j < length (y # ys)"
    then show "k + j \<in> m \<or> (y # ys) ! j \<noteq> x"
      using here Cons.IH [OF rest] by (cases j) auto
  qed
qed

lemma unmatched_insert:
  assumes "i < length ys" and "i \<notin> m"
  shows "image_mset ((!) ys) (mset_set ({0..<length ys} - insert i m)) =
         image_mset ((!) ys) (mset_set ({0..<length ys} - m)) - {#ys ! i#}"
proof -
  have "{0..<length ys} - insert i m = ({0..<length ys} - m) - {i}" by auto
  moreover have "i \<in> {0..<length ys} - m" using assms by simp
  ultimately show ?thesis
    by (simp add: mset_set_Diff image_mset_Diff)
qed

lemma unmatched_member:
  "x \<in># image_mset ((!) ys) (mset_set ({0..<length ys} - m)) \<longleftrightarrow>
     (\<exists>j < length ys. j \<notin> m \<and> ys ! j = x)"
  by auto

lemma unmatched_all: "image_mset ((!) ys) (mset_set {0..<length ys}) = mset ys"
proof -
  have "image_mset ((!) ys) (mset_set {0..<length ys}) = mset (map ((!) ys) [0..<length ys])"
    by (simp only: mset_map mset_upt)
  also have "\<dots> = mset ys"
    by (simp only: map_nth)
  finally show ?thesis .
qed

lemma diff_unmatched_step:
  "x \<in># R \<Longrightarrow> add_mset x M - R = M - (R - {#x#})"
  by (simp add: multiset_eq_iff) 

lemma diff_unmatched_keep:
  "x \<notin># R \<Longrightarrow> add_mset x M - R = add_mset x (M - R)"
  by (simp add: multiset_eq_iff not_in_iff)

lemma getGroupDifference_loop_length:
  "length (getGroupDifference_loop k xs ys acc m) =
     length acc + size (mset xs - image_mset ((!) ys) (mset_set ({0..<length ys} - m)))"
proof (induction xs arbitrary: k acc m)
  case Nil
  then show ?case by simp
next
  case (Cons x xs)
  obtain found i where f: "findIndenticalSchema x ys m = (found, i)"
    by (cases "findIndenticalSchema x ys m")
  show ?case
  proof (cases found)
    case True
    with f have "findIndenticalSchema_loop 0 x ys m = (True, i)"
      by (simp add: findIndenticalSchema_def)
    from findIndenticalSchema_loop_found [OF this]
    have i: "i < length ys" "i \<notin> m" "ys ! i = x" by simp_all
    have mem: "x \<in># image_mset ((!) ys) (mset_set ({0..<length ys} - m))"
      using i unfolding unmatched_member by blast
    show ?thesis
      using True f
      by (simp add: Cons.IH unmatched_insert [OF i(1) i(2)] i(3) diff_unmatched_step [OF mem])
  next
    case False
    with f have "findIndenticalSchema_loop 0 x ys m = (False, i)"
      by (simp add: findIndenticalSchema_def)
    from findIndenticalSchema_loop_not_found [OF this]
    have "\<forall>j < length ys. j \<in> m \<or> ys ! j \<noteq> x" by simp
    then have mem: "x \<notin># image_mset ((!) ys) (mset_set ({0..<length ys} - m))"
      unfolding unmatched_member by blast
    show ?thesis
      using False f
      by (simp add: Cons.IH diff_unmatched_keep [OF mem])
  qed
qed

lemma getGroupDifference_length:
  "length (getGroupDifference_loop 0 xs ys [] {}) = size (mset xs - mset ys)"
  using getGroupDifference_loop_length [of 0 xs ys "[]" "{}"]
  by (simp add: unmatched_all)

text \<open>
  C4. When the numbers of unmatched elements on the two sides are not both one, the inline
  diff counts the unmatched elements of the second list as added and those of the first as
  deleted, and has no modified entry: no pair is formed, whatever \<^verbatim>\<open>getSchemaDiff\<close>
  is. The numbers are the sizes of the differences of the two lists as multisets. On lists
  of inline schemas \<^verbatim>\<open>getSchemaListsDiffInternal\<close> returns the same diff. So for the
  lists \<open>[S1, S2]\<close> and \<open>[S1, S3, S4]\<close> with \<open>S2\<close>, \<open>S3\<close> and \<open>S4\<close> mutually
  distinct, the inline diff counts two added and one deleted and has no modified entry,
  and when the four schemas are inline \<^verbatim>\<open>getSchemaListsDiff\<close> returns the same.
\<close>

theorem ambiguous_inline_schemas_are_counted:
  fixes getSchemaDiff :: "'c \<Rightarrow> 's \<Rightarrow> 'v SchemaRef option \<Rightarrow> 'v SchemaRef option \<Rightarrow> 'e failure + 'd"
  shows "(\<not> (size (mset schemaRefs2 - mset schemaRefs1) = 1 \<and>
             size (mset schemaRefs1 - mset schemaRefs2) = 1) \<longrightarrow>
            getSchemaListsInlineDiff getSchemaDiff isEmpty config state schemaRefs1 schemaRefs2 =
              Inr \<lparr>Added = of_nat (size (mset schemaRefs2 - mset schemaRefs1)),
                   Deleted = of_nat (size (mset schemaRefs1 - mset schemaRefs2)),
                   Modified = Map.empty\<rparr> \<and>
            ((\<forall>schemaRef \<in> set schemaRefs1 \<union> set schemaRefs2. isSchemaInline schemaRef) \<longrightarrow>
               getSchemaListsDiffInternal getSchemaDiff isEmpty config state schemaRefs1 schemaRefs2 =
                 Inr (Some \<lparr>Added = of_nat (size (mset schemaRefs2 - mset schemaRefs1)),
                            Deleted = of_nat (size (mset schemaRefs1 - mset schemaRefs2)),
                            Modified = Map.empty\<rparr>))) \<and>
         (S2 \<noteq> S3 \<and> S2 \<noteq> S4 \<and> S3 \<noteq> S4 \<longrightarrow>
            getSchemaListsInlineDiff getSchemaDiff isEmpty config state [S1, S2] [S1, S3, S4] =
              Inr \<lparr>Added = 2, Deleted = 1, Modified = Map.empty\<rparr> \<and>
            (isSchemaInline S1 \<and> isSchemaInline S2 \<and> isSchemaInline S3 \<and> isSchemaInline S4 \<longrightarrow>
               getSchemaListsDiff getSchemaDiff isEmpty config state [S1, S2] [S1, S3, S4] =
                 Inr (Some \<lparr>Added = 2, Deleted = 1, Modified = Map.empty\<rparr>)))"
  (is "(?ambiguous \<longrightarrow> ?rule \<and> ?top) \<and> (?distinct \<longrightarrow> ?example \<and> ?example_top)")
proof (rule conjI)
  show "?ambiguous \<longrightarrow> ?rule \<and> ?top"
  proof
    assume a: ?ambiguous
    have not_one: "\<not> (length (getGroupDifference_loop 0 schemaRefs2 schemaRefs1 [] {}) = 1 \<and>
        length (getGroupDifference_loop 0 schemaRefs1 schemaRefs2 [] {}) = 1)"
      unfolding getGroupDifference_length by (rule a)
    have "getSchemaListsInlineDiff getSchemaDiff isEmpty config state schemaRefs1 schemaRefs2 =
        Inr \<lparr>Added = of_nat (length (getGroupDifference_loop 0 schemaRefs2 schemaRefs1 [] {})),
             Deleted = of_nat (length (getGroupDifference_loop 0 schemaRefs1 schemaRefs2 [] {})),
             Modified = Map.empty\<rparr>"
      by (simp only: getSchemaListsInlineDiff_def getGroupDifference_def sum.case
          if_not_P [OF not_one])
    then have r: ?rule
      by (simp only: getGroupDifference_length)
    have t: ?top
      by (simp add: getSchemaListsDiffInternal_inline r)
    show "?rule \<and> ?top" using r t by (rule conjI)
  qed
next
  show "?distinct \<longrightarrow> ?example \<and> ?example_top"
  proof
    assume d: ?distinct
    have e: ?example
      using d
      by (auto simp add: getSchemaListsInlineDiff_def getGroupDifference_def
          findIndenticalSchema_def alreadyMatched_def)
    have t: ?example_top
      by (simp add: e getSchemaListsDiff_def getSchemaListsDiffInternal_inline)
    show "?example \<and> ?example_top" using e t by (rule conjI)
  qed
qed

text \<open>
  The theorem of C4 at a list with two unmatched elements against a list with one, and at
  the four sample schemas.
\<close>

theorem ambiguous_inline_schemas_are_counted_witness:
  "\<not> (size (mset [inline_schema ''string'' [], inline_schema ''number'' []] -
            mset [inline_schema ''string'' [], inline_schema ''integer'' [], inline_schema ''boolean'' []]) = 1 \<and>
      size (mset [inline_schema ''string'' [], inline_schema ''integer'' [], inline_schema ''boolean'' []] -
            mset [inline_schema ''string'' [], inline_schema ''number'' []]) = 1) \<and>
   getSchemaListsInlineDiff sample_getSchemaDiff sample_isEmpty () ()
     [inline_schema ''string'' [], inline_schema ''integer'' [], inline_schema ''boolean'' []]
     [inline_schema ''string'' [], inline_schema ''number'' []] =
   Inr \<lparr>Added = 1, Deleted = 2, Modified = Map.empty\<rparr> \<and>
   inline_schema ''integer'' [] \<noteq> inline_schema ''number'' [] \<and>
   inline_schema ''integer'' [] \<noteq> inline_schema ''boolean'' [] \<and>
   inline_schema ''number'' [] \<noteq> inline_schema ''boolean'' [] \<and>
   isSchemaInline (inline_schema ''string'' []) \<and> isSchemaInline (inline_schema ''integer'' []) \<and>
   isSchemaInline (inline_schema ''number'' []) \<and> isSchemaInline (inline_schema ''boolean'' []) \<and>
   getSchemaListsInlineDiff sample_getSchemaDiff sample_isEmpty () ()
     [inline_schema ''string'' [], inline_schema ''integer'' []]
     [inline_schema ''string'' [], inline_schema ''number'' [], inline_schema ''boolean'' []] =
   Inr \<lparr>Added = 2, Deleted = 1, Modified = Map.empty\<rparr> \<and>
   getSchemaListsDiff sample_getSchemaDiff sample_isEmpty () ()
     [inline_schema ''string'' [], inline_schema ''integer'' []]
     [inline_schema ''string'' [], inline_schema ''number'' [], inline_schema ''boolean'' []] =
   Inr (Some \<lparr>Added = 2, Deleted = 1, Modified = Map.empty\<rparr>)"
proof -
  let ?A = "[inline_schema ''string'' [], inline_schema ''integer'' [], inline_schema ''boolean'' []]"
  let ?B = "[inline_schema ''string'' [], inline_schema ''number'' []]"
  have added: "size (mset ?B - mset ?A) = 1"
    by (simp add: inline_schema_def)
  have deleted: "size (mset ?A - mset ?B) = 2"
    by (simp add: inline_schema_def)
  have h: "inline_schema ''integer'' [] \<noteq> inline_schema ''number'' [] \<and>
      inline_schema ''integer'' [] \<noteq> inline_schema ''boolean'' [] \<and>
      inline_schema ''number'' [] \<noteq> inline_schema ''boolean'' []"
    by (simp add: inline_schema_def)
  have i: "isSchemaInline (inline_schema ''string'' []) \<and> isSchemaInline (inline_schema ''integer'' []) \<and>
      isSchemaInline (inline_schema ''number'' []) \<and> isSchemaInline (inline_schema ''boolean'' [])"
    by (simp add: inline_schema_def)
  note rule = ambiguous_inline_schemas_are_counted
    [where getSchemaDiff = sample_getSchemaDiff and isEmpty = sample_isEmpty
       and config = "()" and state = "()" and ?schemaRefs1.0 = ?A and ?schemaRefs2.0 = ?B,
     THEN conjunct1]
  note example = ambiguous_inline_schemas_are_counted
    [where getSchemaDiff = sample_getSchemaDiff and isEmpty = sample_isEmpty
       and config = "()" and state = "()" and ?S1.0 = "inline_schema ''string'' []"
       and ?S2.0 = "inline_schema ''integer'' []" and ?S3.0 = "inline_schema ''number'' []"
       and ?S4.0 = "inline_schema ''boolean'' []", THEN conjunct2]
  have r: "getSchemaListsInlineDiff sample_getSchemaDiff sample_isEmpty () () ?A ?B =
      Inr \<lparr>Added = 1, Deleted = 2, Modified = Map.empty\<rparr>"
    using rule added deleted by simp
  show ?thesis
    using added deleted r h i example by simp
qed

section \<open>Combine\<close>

text \<open>
  C5. For three \<^verbatim>\<open>SchemaListDiff\<close> values whose modified maps have pairwise disjoint
  keys, \<^verbatim>\<open>combine\<close> always returns a diff, it is associative, it is commutative on
  the added and deleted counters (and on the modified maps), the counters are the sums, and
  the modified map of the result is the union of the two maps: its keys are the keys of
  both, and each key keeps its entry.
\<close>

theorem combine_associative_commutative:
  fixes X Y Z :: "'d SchemaListDiff"
  assumes "dom (Modified X) \<inter> dom (Modified Y) = {}"
    and "dom (Modified X) \<inter> dom (Modified Z) = {}"
    and "dom (Modified Y) \<inter> dom (Modified Z) = {}"
  shows "\<exists>XY YZ YX.
           (combine X Y :: 'e failure + 'd SchemaListDiff option) = Inr (Some XY) \<and>
           (combine Y Z :: 'e failure + 'd SchemaListDiff option) = Inr (Some YZ) \<and>
           (combine Y X :: 'e failure + 'd SchemaListDiff option) = Inr (Some YX) \<and>
           (combine XY Z :: 'e failure + 'd SchemaListDiff option) = combine X YZ \<and>
           Added XY = Added YX \<and> Deleted XY = Deleted YX \<and> Modified XY = Modified YX \<and>
           Added XY = Added X + Added Y \<and> Deleted XY = Deleted X + Deleted Y \<and>
           dom (Modified XY) = dom (Modified X) \<union> dom (Modified Y) \<and>
           (\<forall>k \<in> dom (Modified X). Modified XY k = Modified X k) \<and>
           (\<forall>k \<in> dom (Modified Y). Modified XY k = Modified Y k)"
proof -
  have comm: "Modified X ++ Modified Y = Modified Y ++ Modified X"
    using assms(1) by (rule map_add_comm)
  have left: "\<forall>k \<in> dom (Modified X). (Modified X ++ Modified Y) k = Modified X k"
  proof
    fix k assume k: "k \<in> dom (Modified X)"
    with assms(1) have "k \<notin> dom (Modified Y)" by blast
    then show "(Modified X ++ Modified Y) k = Modified X k"
      by (simp add: map_add_dom_app_simps)
  qed
  have right: "\<forall>k \<in> dom (Modified Y). (Modified X ++ Modified Y) k = Modified Y k"
    by (auto simp add: map_add_dom_app_simps)
  show ?thesis
    using comm left right
    by (simp add: combine_def ModifiedSchemas_combine_def add.assoc add.commute Un_commute)
qed

text \<open>The theorem of C5 at a diff of referenced schemas, a diff of inline schemas and a third.\<close>

theorem combine_associative_commutative_witness:
  "dom [''#/components/schemas/Pet'' \<mapsto> ''type''] \<inter> dom [''#1'' \<mapsto> ''format''] = {} \<and>
   dom [''#/components/schemas/Pet'' \<mapsto> ''type''] \<inter> dom (Map.empty :: string \<rightharpoonup> string) = {} \<and>
   dom [''#1'' \<mapsto> ''format''] \<inter> dom (Map.empty :: string \<rightharpoonup> string) = {} \<and>
   (combine \<lparr>Added = 1, Deleted = 2, Modified = [''#/components/schemas/Pet'' \<mapsto> ''type'']\<rparr>
            \<lparr>Added = 0, Deleted = 0, Modified = [''#1'' \<mapsto> ''format'']\<rparr>
      :: string failure + string SchemaListDiff option) =
   Inr (Some \<lparr>Added = 1, Deleted = 2,
              Modified = [''#/components/schemas/Pet'' \<mapsto> ''type'', ''#1'' \<mapsto> ''format'']\<rparr>) \<and>
   (combine \<lparr>Added = 0, Deleted = 0, Modified = [''#1'' \<mapsto> ''format'']\<rparr>
            \<lparr>Added = 1, Deleted = 2, Modified = [''#/components/schemas/Pet'' \<mapsto> ''type'']\<rparr>
      :: string failure + string SchemaListDiff option) =
   Inr (Some \<lparr>Added = 1, Deleted = 2,
              Modified = [''#/components/schemas/Pet'' \<mapsto> ''type'', ''#1'' \<mapsto> ''format'']\<rparr>)"
proof -
  let ?X = "\<lparr>Added = 1, Deleted = 2, Modified = [''#/components/schemas/Pet'' \<mapsto> ''type'']\<rparr>"
  let ?Y = "\<lparr>Added = 0, Deleted = 0, Modified = [''#1'' \<mapsto> ''format'']\<rparr>"
  let ?Z = "\<lparr>Added = 3, Deleted = 0, Modified = (Map.empty :: string \<rightharpoonup> string)\<rparr>"
  have h1: "dom (Modified ?X) \<inter> dom (Modified ?Y) = {}" by simp
  have h2: "dom (Modified ?X) \<inter> dom (Modified ?Z) = {}" by simp
  have h3: "dom (Modified ?Y) \<inter> dom (Modified ?Z) = {}" by simp
  from combine_associative_commutative [where ?'e = string, OF h1 h2 h3]
  obtain XY YX where xy: "(combine ?X ?Y :: string failure + string SchemaListDiff option) = Inr (Some XY)"
    and yx: "(combine ?Y ?X :: string failure + string SchemaListDiff option) = Inr (Some YX)"
    and m: "Modified XY = Modified YX" and a: "Added XY = Added YX" and d: "Deleted XY = Deleted YX"
    by blast
  have e: "XY = YX" using m a d by simp
  have v: "XY = \<lparr>Added = 1, Deleted = 2,
              Modified = [''#/components/schemas/Pet'' \<mapsto> ''type'', ''#1'' \<mapsto> ''format'']\<rparr>"
    using xy by (simp add: combine_def ModifiedSchemas_combine_def)
  show ?thesis using xy yx e v by simp
qed

section \<open>The nil result of the schema list diff\<close>

text \<open>\<^verbatim>\<open>getSchemaListsDiffInternal\<close> returns what \<^verbatim>\<open>combine\<close> returns, never nil.\<close>

lemma getSchemaListsDiffInternal_not_nil:
  "getSchemaListsDiffInternal getSchemaDiff isEmpty config state schemaRefs1 schemaRefs2 = Inr diff
     \<Longrightarrow> diff \<noteq> None"
  by (auto simp add: getSchemaListsDiffInternal_def combine_def split: sum.splits)

text \<open>
  C10. \<^verbatim>\<open>Empty\<close> on the nil pointer is true, and \<^verbatim>\<open>getSchemaListsDiff\<close> returns
  nil without an error exactly when the diff that \<^verbatim>\<open>getSchemaListsDiffInternal\<close>
  computed has nothing added, nothing deleted and no modified entry. It returns a diff that
  is not empty as it is, and a failure as it is.
\<close>

theorem getSchemaListsDiff_nil_iff_empty:
  fixes getSchemaDiff :: "'c \<Rightarrow> 's \<Rightarrow> 'v SchemaRef option \<Rightarrow> 'v SchemaRef option \<Rightarrow> 'e failure + 'd"
  shows "Empty (None :: 'd SchemaListDiff option) \<and>
    (getSchemaListsDiff getSchemaDiff isEmpty config state schemaRefs1 schemaRefs2 = Inr None \<longleftrightarrow>
       (\<exists>diff. getSchemaListsDiffInternal getSchemaDiff isEmpty config state schemaRefs1 schemaRefs2 =
                 Inr (Some diff) \<and>
               Added diff = 0 \<and> Deleted diff = 0 \<and> Modified diff = Map.empty)) \<and>
    (\<forall>diff. getSchemaListsDiffInternal getSchemaDiff isEmpty config state schemaRefs1 schemaRefs2 =
              Inr diff \<and> \<not> Empty diff \<longrightarrow>
            getSchemaListsDiff getSchemaDiff isEmpty config state schemaRefs1 schemaRefs2 = Inr diff) \<and>
    (\<forall>err. getSchemaListsDiffInternal getSchemaDiff isEmpty config state schemaRefs1 schemaRefs2 =
             Inl err \<longrightarrow>
           getSchemaListsDiff getSchemaDiff isEmpty config state schemaRefs1 schemaRefs2 = Inl err)"
proof (cases "getSchemaListsDiffInternal getSchemaDiff isEmpty config state schemaRefs1 schemaRefs2")
  case (Inl err)
  then show ?thesis by (simp add: getSchemaListsDiff_def)
next
  case (Inr diff)
  then obtain d where d: "diff = Some d"
    using getSchemaListsDiffInternal_not_nil [OF Inr] by (cases diff) auto
  show ?thesis
    using Inr d by (auto simp add: getSchemaListsDiff_def)
qed

text \<open>The theorem of C10 at two equal lists, and at a list and the empty list.\<close>

theorem getSchemaListsDiff_nil_iff_empty_witness:
  "getSchemaListsDiffInternal sample_getSchemaDiff sample_isEmpty () ()
     [inline_schema ''string'' []] [inline_schema ''string'' []] =
     Inr (Some \<lparr>Added = 0, Deleted = 0, Modified = Map.empty\<rparr>) \<and>
   getSchemaListsDiff sample_getSchemaDiff sample_isEmpty () ()
     [inline_schema ''string'' []] [inline_schema ''string'' []] = Inr None \<and>
   getSchemaListsDiffInternal sample_getSchemaDiff sample_isEmpty () ()
     [inline_schema ''string'' []] [] =
     Inr (Some \<lparr>Added = 0, Deleted = 1, Modified = Map.empty\<rparr>) \<and>
   getSchemaListsDiff sample_getSchemaDiff sample_isEmpty () ()
     [inline_schema ''string'' []] [] =
     Inr (Some \<lparr>Added = 0, Deleted = 1, Modified = Map.empty\<rparr>)"
proof -
  let ?s = "inline_schema ''string'' []"
  have i1: "getSchemaListsDiffInternal sample_getSchemaDiff sample_isEmpty () () [?s] [?s] =
     Inr (Some \<lparr>Added = 0, Deleted = 0, Modified = Map.empty\<rparr>)"
    by (simp add: getSchemaListsDiffInternal_def filterSchemaRefs_def inline_schema_def
      getSchemaListsRefsDiff_def toSchemaRefsMap_def getSchemaMapsRefsDiff_def
      getSchemaListsInlineDiff_def getGroupDifference_def findIndenticalSchema_def
      alreadyMatched_def combine_def ModifiedSchemas_combine_def)
  have i2: "getSchemaListsDiffInternal sample_getSchemaDiff sample_isEmpty () () [?s] [] =
     Inr (Some \<lparr>Added = 0, Deleted = 1, Modified = Map.empty\<rparr>)"
    by (simp add: getSchemaListsDiffInternal_def filterSchemaRefs_def inline_schema_def
      getSchemaListsRefsDiff_def toSchemaRefsMap_def getSchemaMapsRefsDiff_def
      getSchemaListsInlineDiff_def getGroupDifference_def findIndenticalSchema_def
      alreadyMatched_def combine_def ModifiedSchemas_combine_def)
  note t1 = getSchemaListsDiff_nil_iff_empty
    [where getSchemaDiff = sample_getSchemaDiff and isEmpty = sample_isEmpty and config = "()"
       and state = "()" and ?schemaRefs1.0 = "[?s]" and ?schemaRefs2.0 = "[?s]"]
  note t2 = getSchemaListsDiff_nil_iff_empty
    [where getSchemaDiff = sample_getSchemaDiff and isEmpty = sample_isEmpty and config = "()"
       and state = "()" and ?schemaRefs1.0 = "[?s]" and ?schemaRefs2.0 = "[]"]
  have r1: "getSchemaListsDiff sample_getSchemaDiff sample_isEmpty () () [?s] [?s] = Inr None"
    using t1 i1 by simp
  have r2: "getSchemaListsDiff sample_getSchemaDiff sample_isEmpty () () [?s] [] =
     Inr (Some \<lparr>Added = 0, Deleted = 1, Modified = Map.empty\<rparr>)"
    using t2 i2 by simp
  show ?thesis using i1 i2 r1 r2 by simp
qed

section \<open>The regex filter\<close>

text \<open>The loops of the filter compute \<open>filter\<close> on the lists and a restriction on the map.\<close>

lemma filterEndpoints_loop_filter:
  "filterEndpoints_loop MatchString endpoints r acc = acc @ filter (MatchString r) endpoints"
  by (induction endpoints arbitrary: acc) auto

lemma filterEndpoints_filter:
  "filterEndpoints MatchString endpoints r = filter (MatchString r) endpoints"
  by (simp add: filterEndpoints_def filterEndpoints_loop_filter)

lemma filterModifiedEndpoints_restrict:
  "filterModifiedEndpoints MatchString m r = m |` {endpoint. MatchString r endpoint}"
  by (rule ext) (simp add: filterModifiedEndpoints_def restrict_map_def split: option.splits)

text \<open>
  C6. When the pattern does not compile, \<^verbatim>\<open>FilterByRegex\<close> leaves the three containers
  as they are; it logs the failure and returns no error.
\<close>

theorem FilterByRegex_invalid_pattern_changes_nothing:
  assumes "Compile flt = Inl err"
  shows "FilterByRegex Compile MatchString diffResult flt =
           ([Failed_to_compile_filter_regex flt err], diffResult)"
  using assms by (simp add: FilterByRegex_def)

text \<open>The theorem of C6 at the pattern \<^verbatim>\<open>[\<close>.\<close>

theorem FilterByRegex_invalid_pattern_changes_nothing_witness:
  "sample_Compile ''['' = Inl ''missing closing ]'' \<and>
   FilterByRegex sample_Compile sample_MatchString
     \<lparr>AddedEndpoints = [''GET /pets''], DeletedEndpoints = [''POST /pets''],
      ModifiedEndpoints = [''GET /pets/{id}'' \<mapsto> ''responses'']\<rparr> ''['' =
   ([Failed_to_compile_filter_regex ''['' ''missing closing ]''],
    \<lparr>AddedEndpoints = [''GET /pets''], DeletedEndpoints = [''POST /pets''],
     ModifiedEndpoints = [''GET /pets/{id}'' \<mapsto> ''responses'']\<rparr>)"
proof -
  have h: "sample_Compile ''['' = Inl ''missing closing ]''"
    by (simp add: sample_Compile_def)
  show ?thesis
    using h FilterByRegex_invalid_pattern_changes_nothing
      [where Compile = sample_Compile and flt = "''[''" and MatchString = sample_MatchString, OF h]
    by simp
qed

text \<open>
  C7. When the pattern compiles, \<^verbatim>\<open>FilterByRegex\<close> keeps in the added and in the
  deleted endpoints exactly the entries that match, in their order, and in the modified
  endpoints exactly the entries whose key matches, and it logs nothing. So a pattern that
  matches every string, as \<^verbatim>\<open>.*\<close> does, changes nothing, and a pattern that matches no
  endpoint of the result empties the three containers.
\<close>

theorem FilterByRegex_keeps_the_matching_entries:
  assumes "Compile flt = Inr r"
  shows "AddedEndpoints (snd (FilterByRegex Compile MatchString diffResult flt)) =
           filter (MatchString r) (AddedEndpoints diffResult) \<and>
         DeletedEndpoints (snd (FilterByRegex Compile MatchString diffResult flt)) =
           filter (MatchString r) (DeletedEndpoints diffResult) \<and>
         ModifiedEndpoints (snd (FilterByRegex Compile MatchString diffResult flt)) =
           ModifiedEndpoints diffResult |` {endpoint. MatchString r endpoint} \<and>
         fst (FilterByRegex Compile MatchString diffResult flt) = [] \<and>
         ((\<forall>endpoint. MatchString r endpoint) \<longrightarrow>
            snd (FilterByRegex Compile MatchString diffResult flt) = diffResult) \<and>
         ((\<forall>endpoint \<in> set (AddedEndpoints diffResult) \<union> set (DeletedEndpoints diffResult)
                \<union> dom (ModifiedEndpoints diffResult). \<not> MatchString r endpoint) \<longrightarrow>
            snd (FilterByRegex Compile MatchString diffResult flt) = newDiffResult)"
proof -
  have all: "(\<forall>endpoint. MatchString r endpoint) \<longrightarrow>
            snd (FilterByRegex Compile MatchString diffResult flt) = diffResult"
    using assms
    by (cases diffResult)
      (simp add: FilterByRegex_def filterEndpoints_filter filterModifiedEndpoints_restrict
        restrict_map_def)
  have none: "(\<forall>endpoint \<in> set (AddedEndpoints diffResult) \<union> set (DeletedEndpoints diffResult)
                \<union> dom (ModifiedEndpoints diffResult). \<not> MatchString r endpoint) \<longrightarrow>
            snd (FilterByRegex Compile MatchString diffResult flt) = newDiffResult"
  proof
    assume n: "\<forall>endpoint \<in> set (AddedEndpoints diffResult) \<union> set (DeletedEndpoints diffResult)
                \<union> dom (ModifiedEndpoints diffResult). \<not> MatchString r endpoint"
    have a: "filter (MatchString r) (AddedEndpoints diffResult) = []"
      using n by (simp add: filter_empty_conv)
    have d: "filter (MatchString r) (DeletedEndpoints diffResult) = []"
      using n by (simp add: filter_empty_conv)
    have m: "ModifiedEndpoints diffResult |` {endpoint. MatchString r endpoint} = Map.empty"
    proof (rule ext)
      fix k
      show "(ModifiedEndpoints diffResult |` {endpoint. MatchString r endpoint}) k = None"
        using n by (cases "ModifiedEndpoints diffResult k") (auto simp add: restrict_map_def)
    qed
    show "snd (FilterByRegex Compile MatchString diffResult flt) = newDiffResult"
      using assms a d m
      by (simp add: FilterByRegex_def filterEndpoints_filter filterModifiedEndpoints_restrict
          newDiffResult_def)
  qed
  show ?thesis
    using assms all none
    by (simp add: FilterByRegex_def filterEndpoints_filter filterModifiedEndpoints_restrict)
qed

text \<open>The theorem of C7 at the pattern \<^verbatim>\<open>^GET \<close>.\<close>

theorem FilterByRegex_keeps_the_matching_entries_witness:
  "sample_Compile ''^GET '' = Inr (Match_prefix ''GET '') \<and>
   snd (FilterByRegex sample_Compile sample_MatchString
     \<lparr>AddedEndpoints = [''GET /pets'', ''POST /pets'', ''GET /owners''],
      DeletedEndpoints = [''POST /owners''],
      ModifiedEndpoints = [''GET /pets/{id}'' \<mapsto> ''responses'']\<rparr> ''^GET '') =
     \<lparr>AddedEndpoints = [''GET /pets'', ''GET /owners''],
      DeletedEndpoints = [],
      ModifiedEndpoints = [''GET /pets/{id}'' \<mapsto> ''responses'']\<rparr>"
proof -
  let ?d = "\<lparr>AddedEndpoints = [''GET /pets'', ''POST /pets'', ''GET /owners''],
      DeletedEndpoints = [''POST /owners''],
      ModifiedEndpoints = [''GET /pets/{id}'' \<mapsto> ''responses'']\<rparr>"
  let ?r = "snd (FilterByRegex sample_Compile sample_MatchString ?d ''^GET '')"
  have h: "sample_Compile ''^GET '' = Inr (Match_prefix ''GET '')"
    by (simp add: sample_Compile_def)
  note t = FilterByRegex_keeps_the_matching_entries
      [where Compile = sample_Compile and flt = "''^GET ''" and MatchString = sample_MatchString
         and diffResult = ?d, OF h]
  have a: "AddedEndpoints ?r = [''GET /pets'', ''GET /owners'']"
    using t by simp
  have d: "DeletedEndpoints ?r = []"
    using t by simp
  have "ModifiedEndpoints ?r = [''GET /pets/{id}'' \<mapsto> ''responses''] |` {endpoint. take 4 endpoint = ''GET ''}"
    using t by simp
  also have "\<dots> = [''GET /pets/{id}'' \<mapsto> ''responses'']"
    by (rule ext) (simp add: restrict_map_def)
  finally have m: "ModifiedEndpoints ?r = [''GET /pets/{id}'' \<mapsto> ''responses'']" .
  have "?r = \<lparr>AddedEndpoints = AddedEndpoints ?r, DeletedEndpoints = DeletedEndpoints ?r,
      ModifiedEndpoints = ModifiedEndpoints ?r\<rparr>"
    by simp
  with a d m h show ?thesis by simp
qed

section \<open>The order of the added and deleted endpoints\<close>

text \<open>A sequence of calls appends its endpoints to the container, in the order of the calls.\<close>

lemma fold_addAddedEndpoint:
  "fold (\<lambda>endpoint d. addAddedEndpoint d endpoint) endpoints diffResult =
     diffResult\<lparr>AddedEndpoints := AddedEndpoints diffResult @ endpoints\<rparr>"
  by (induction endpoints arbitrary: diffResult) (simp_all add: addAddedEndpoint_def)

lemma fold_addDeletedEndpoint:
  "fold (\<lambda>endpoint d. addDeletedEndpoint d endpoint) endpoints diffResult =
     diffResult\<lparr>DeletedEndpoints := DeletedEndpoints diffResult @ endpoints\<rparr>"
  by (induction endpoints arbitrary: diffResult) (simp_all add: addDeletedEndpoint_def)

text \<open>
  So the two containers of the endpoint diff hold the sorted keys, which depend on the two
  endpoint maps only.
\<close>

lemma endpoints_diff_added:
  "AddedEndpoints (endpoints_diff getOperationDiff isEmpty document1 document2) =
     endpoints_only_in (endpoints_of document2) (endpoints_of document1)"
  by (simp add: endpoints_diff_def Let_def fold_addAddedEndpoint fold_addDeletedEndpoint
      newDiffResult_def)

lemma endpoints_diff_deleted:
  "DeletedEndpoints (endpoints_diff getOperationDiff isEmpty document1 document2) =
     endpoints_only_in (endpoints_of document1) (endpoints_of document2)"
  by (simp add: endpoints_diff_def Let_def fold_addAddedEndpoint fold_addDeletedEndpoint
      newDiffResult_def)

lemma endpoints_only_in_sorted:
  "sorted (endpoints_only_in endpoints other) \<and> distinct (endpoints_only_in endpoints other) \<and>
   set (endpoints_only_in endpoints other) = dom (map_of endpoints) - dom (map_of other)"
proof -
  have "set (endpoints_only_in endpoints other) = dom (map_of endpoints) - dom (map_of other)"
    by (auto simp add: endpoints_only_in_def dom_map_of_conv_image_fst map_of_eq_None_iff)
  then show ?thesis
    by (simp add: endpoints_only_in_def)
qed

lemma endpoints_only_in_maps:
  assumes "map_of endpoints' = map_of endpoints" and "map_of other' = map_of other"
  shows "endpoints_only_in endpoints' other' = endpoints_only_in endpoints other"
proof (rule sorted_distinct_set_unique)
  show "set (endpoints_only_in endpoints' other') = set (endpoints_only_in endpoints other)"
    using assms by (simp add: endpoints_only_in_sorted)
qed (simp_all add: endpoints_only_in_sorted)

text \<open>
  C9. For every pair of documents the added and the deleted endpoints of the
  \<^verbatim>\<open>DiffResult\<close> are sorted lexicographically, without repetition, and are the keys of
  the second document that the first has not, and the keys of the first that the second
  has not. They do not depend on the order in which the maps were iterated: two documents
  with the same endpoint map give the same containers.
\<close>

theorem added_and_deleted_endpoints_are_sorted:
  fixes getOperationDiff :: "'o \<Rightarrow> 'o \<Rightarrow> 'm"
  shows "sorted (AddedEndpoints (endpoints_diff getOperationDiff isEmpty document1 document2)) \<and>
    distinct (AddedEndpoints (endpoints_diff getOperationDiff isEmpty document1 document2)) \<and>
    set (AddedEndpoints (endpoints_diff getOperationDiff isEmpty document1 document2)) =
      dom (map_of (endpoints_of document2)) - dom (map_of (endpoints_of document1)) \<and>
    sorted (DeletedEndpoints (endpoints_diff getOperationDiff isEmpty document1 document2)) \<and>
    distinct (DeletedEndpoints (endpoints_diff getOperationDiff isEmpty document1 document2)) \<and>
    set (DeletedEndpoints (endpoints_diff getOperationDiff isEmpty document1 document2)) =
      dom (map_of (endpoints_of document1)) - dom (map_of (endpoints_of document2)) \<and>
    (\<forall>other1 other2.
       map_of (endpoints_of other1) = map_of (endpoints_of document1) \<and>
       map_of (endpoints_of other2) = map_of (endpoints_of document2) \<longrightarrow>
       AddedEndpoints (endpoints_diff getOperationDiff isEmpty other1 other2) =
         AddedEndpoints (endpoints_diff getOperationDiff isEmpty document1 document2) \<and>
       DeletedEndpoints (endpoints_diff getOperationDiff isEmpty other1 other2) =
         DeletedEndpoints (endpoints_diff getOperationDiff isEmpty document1 document2))"
proof -
  note added = endpoints_only_in_sorted [of "endpoints_of document2" "endpoints_of document1"]
  note deleted = endpoints_only_in_sorted [of "endpoints_of document1" "endpoints_of document2"]
  have same: "\<forall>other1 other2.
       map_of (endpoints_of other1) = map_of (endpoints_of document1) \<and>
       map_of (endpoints_of other2) = map_of (endpoints_of document2) \<longrightarrow>
       endpoints_only_in (endpoints_of other2) (endpoints_of other1) =
         endpoints_only_in (endpoints_of document2) (endpoints_of document1) \<and>
       endpoints_only_in (endpoints_of other1) (endpoints_of other2) =
         endpoints_only_in (endpoints_of document1) (endpoints_of document2)"
  proof (intro allI impI conjI)
    fix other1 other2 :: "'o document"
    assume m: "map_of (endpoints_of other1) = map_of (endpoints_of document1) \<and>
       map_of (endpoints_of other2) = map_of (endpoints_of document2)"
    show "endpoints_only_in (endpoints_of other2) (endpoints_of other1) =
         endpoints_only_in (endpoints_of document2) (endpoints_of document1)"
      using m by (intro endpoints_only_in_maps) simp_all
    show "endpoints_only_in (endpoints_of other1) (endpoints_of other2) =
         endpoints_only_in (endpoints_of document1) (endpoints_of document2)"
      using m by (intro endpoints_only_in_maps) simp_all
  qed
  show ?thesis
    unfolding endpoints_diff_added endpoints_diff_deleted
    using added deleted same by blast
qed

text \<open>
  The theorem of C9 at a document read in two orders of its paths and methods, against a
  document with one endpoint.
\<close>

theorem added_and_deleted_endpoints_are_sorted_witness:
  "map_of (endpoints_of [(''/owners'', [(''GET'', ''o'')]), (''/pets'', [(''DELETE'', ''d''), (''GET'', ''g'')])]) =
     map_of (endpoints_of [(''/pets'', [(''GET'', ''g''), (''DELETE'', ''d'')]), (''/owners'', [(''GET'', ''o'')])]) \<and>
   AddedEndpoints (endpoints_diff sample_diff sample_empty
     [(''/owners'', [(''POST'', ''p'')])]
     [(''/pets'', [(''GET'', ''g''), (''DELETE'', ''d'')]), (''/owners'', [(''GET'', ''o'')])]) =
     [''DELETE /pets'', ''GET /owners'', ''GET /pets''] \<and>
   AddedEndpoints (endpoints_diff sample_diff sample_empty
     [(''/owners'', [(''POST'', ''p'')])]
     [(''/owners'', [(''GET'', ''o'')]), (''/pets'', [(''DELETE'', ''d''), (''GET'', ''g'')])]) =
     [''DELETE /pets'', ''GET /owners'', ''GET /pets''] \<and>
   DeletedEndpoints (endpoints_diff sample_diff sample_empty
     [(''/owners'', [(''POST'', ''p'')])]
     [(''/owners'', [(''GET'', ''o'')]), (''/pets'', [(''DELETE'', ''d''), (''GET'', ''g'')])]) =
     [''POST /owners'']"
proof -
  let ?d1 = "[(''/owners'', [(''POST'', ''p'')])]"
  let ?d2 = "[(''/pets'', [(''GET'', ''g''), (''DELETE'', ''d'')]), (''/owners'', [(''GET'', ''o'')])]"
  let ?o2 = "[(''/owners'', [(''GET'', ''o'')]), (''/pets'', [(''DELETE'', ''d''), (''GET'', ''g'')])]"
  have m: "map_of (endpoints_of ?o2) = map_of (endpoints_of ?d2)"
    by (subst map_of_inject_set) (auto simp add: endpoints_of_def)
  have a: "endpoints_only_in (endpoints_of ?d2) (endpoints_of ?d1) =
      [''DELETE /pets'', ''GET /owners'', ''GET /pets'']"
    by (simp add: endpoints_of_def endpoints_only_in_def)
  have d: "endpoints_only_in (endpoints_of ?d1) (endpoints_of ?d2) = [''POST /owners'']"
    by (simp add: endpoints_of_def endpoints_only_in_def)
  note t = added_and_deleted_endpoints_are_sorted
    [where getOperationDiff = sample_diff and isEmpty = sample_empty
       and ?document1.0 = ?d1 and ?document2.0 = ?d2]
  have same: "AddedEndpoints (endpoints_diff sample_diff sample_empty ?d1 ?o2) =
      AddedEndpoints (endpoints_diff sample_diff sample_empty ?d1 ?d2) \<and>
    DeletedEndpoints (endpoints_diff sample_diff sample_empty ?d1 ?o2) =
      DeletedEndpoints (endpoints_diff sample_diff sample_empty ?d1 ?d2)"
    using t m by blast
  have a': "AddedEndpoints (endpoints_diff sample_diff sample_empty ?d1 ?d2) =
      [''DELETE /pets'', ''GET /owners'', ''GET /pets'']"
    by (simp only: endpoints_diff_added a)
  have d': "DeletedEndpoints (endpoints_diff sample_diff sample_empty ?d1 ?d2) = [''POST /owners'']"
    by (simp only: endpoints_diff_deleted d)
  show ?thesis
    using same a' d' m by (intro conjI) (simp_all only:)
qed

section \<open>The emptiness of a MethodDiff\<close>

text \<open>
  A field that is set only when its diff is not empty is nil exactly when the diff is
  empty, provided that the check accepts the nil pointer.
\<close>

lemma set_unless_empty_check:
  "is_empty None \<Longrightarrow> is_empty (set_unless_empty is_empty d) = is_empty d"
  by (simp add: set_unless_empty_def)

lemma set_unless_empty_nil:
  "is_empty None \<Longrightarrow> set_unless_empty is_empty d = None \<longleftrightarrow> is_empty d"
  by (cases d) (auto simp add: set_unless_empty_def)

text \<open>The zero \<^verbatim>\<open>MethodDiff\<close> is the one whose ten pointers are nil.\<close>

lemma MethodDiff_eq_new:
  "methodDiff = newMethodDiff \<longleftrightarrow>
     TagsDiff methodDiff = None \<and> SummaryDiff methodDiff = None \<and>
     DescriptionDiff methodDiff = None \<and> OperationIDDiff methodDiff = None \<and>
     ParametersDiff methodDiff = None \<and> RequestBodyDiff methodDiff = None \<and>
     ResponsesDiff methodDiff = None \<and> CallbacksDiff methodDiff = None \<and>
     DeprecatedDiff methodDiff = None \<and> ServersDiff methodDiff = None"
  by (cases methodDiff) (auto simp add: newMethodDiff_def)

lemma MethodDiff_empty_fields:
  "MethodDiff_empty (Some methodDiff) =
     Inr (TagsDiff methodDiff = None \<and> SummaryDiff methodDiff = None \<and>
          DescriptionDiff methodDiff = None \<and> OperationIDDiff methodDiff = None \<and>
          ParametersDiff methodDiff = None \<and> RequestBodyDiff methodDiff = None \<and>
          ResponsesDiff methodDiff = None \<and> CallbacksDiff methodDiff = None \<and>
          DeprecatedDiff methodDiff = None \<and> ServersDiff methodDiff = None)"
  by (simp add: MethodDiff_eq_new)

text \<open>
  C8, as amended. \<^verbatim>\<open>MethodDiff.empty\<close> compares the structure with its zero value: it
  is true exactly when the ten sub-diff pointers are nil. For the \<^verbatim>\<open>MethodDiff\<close> that
  \<^verbatim>\<open>getMethodDiff\<close> returns this is the conjunction of the emptiness checks of the ten
  sub-diffs, provided that the checks of the parameters, request body, responses, callbacks
  and servers diffs accept the nil pointer and that \<^verbatim>\<open>getStringsDiff\<close> and
  \<^verbatim>\<open>getValueDiff\<close> return nil exactly when their diff is empty.
\<close>

theorem MethodDiff_empty_is_comparison_with_zero:
  fixes chk :: "('sd, 'vd, 'pd, 'bd, 'rd, 'cd, 'ed) SubDiffChecks"
    and sub :: "('p, 'b, 'r, 'c, 's, 'sd, 'vd, 'pd, 'bd, 'rd, 'cd, 'ed) SubDiffs"
  shows "(MethodDiff_empty (Some methodDiff) :: 'e failure + bool) =
           Inr (TagsDiff methodDiff = None \<and> SummaryDiff methodDiff = None \<and>
                DescriptionDiff methodDiff = None \<and> OperationIDDiff methodDiff = None \<and>
                ParametersDiff methodDiff = None \<and> RequestBodyDiff methodDiff = None \<and>
                ResponsesDiff methodDiff = None \<and> CallbacksDiff methodDiff = None \<and>
                DeprecatedDiff methodDiff = None \<and> ServersDiff methodDiff = None) \<and>
         (ParametersDiff_empty chk None \<and> RequestBodyDiff_empty chk None \<and>
          ResponsesDiff_empty chk None \<and> CallbacksDiff_empty chk None \<and>
          ServersDiff_empty chk None \<and>
          (\<forall>tags1 tags2. StringsDiff_empty chk (getStringsDiff sub tags1 tags2) \<longleftrightarrow>
             getStringsDiff sub tags1 tags2 = None) \<and>
          (\<forall>value1 value2. ValueDiff_empty chk (getValueDiff sub value1 value2) \<longleftrightarrow>
             getValueDiff sub value1 value2 = None)
          \<longrightarrow>
          (\<exists>result.
            (getMethodDiff chk sub (Some pathItem1) (Some pathItem2) :: 'e failure + _) = Inr result \<and>
            (MethodDiff_empty (Some result) :: 'e failure + bool) =
              Inr (MethodDiff_empty_by_sub_diffs chk result) \<and>
            MethodDiff_empty_by_sub_diffs chk result =
              (StringsDiff_empty chk (getStringsDiff sub (Tags pathItem1) (Tags pathItem2)) \<and>
               ValueDiff_empty chk (getValueDiff sub (StringValue (Summary pathItem1)) (StringValue (Summary pathItem2))) \<and>
               ValueDiff_empty chk (getValueDiff sub (StringValue (Description pathItem1)) (StringValue (Description pathItem2))) \<and>
               ValueDiff_empty chk (getValueDiff sub (StringValue (OperationID pathItem1)) (StringValue (OperationID pathItem2))) \<and>
               ParametersDiff_empty chk (getParametersDiff sub (Parameters pathItem1) (Parameters pathItem2)) \<and>
               RequestBodyDiff_empty chk (getRequestBodyDiff sub (RequestBody pathItem1) (RequestBody pathItem2)) \<and>
               ResponsesDiff_empty chk (getResponsesDiff sub (Responses pathItem1) (Responses pathItem2)) \<and>
               CallbacksDiff_empty chk (getCallbacksDiff sub (Callbacks pathItem1) (Callbacks pathItem2)) \<and>
               ValueDiff_empty chk (getValueDiff sub (BoolValue (Deprecated pathItem1)) (BoolValue (Deprecated pathItem2))) \<and>
               ServersDiff_empty chk (getServersDiff sub (Servers pathItem1) (Servers pathItem2)))))"
  (is "?zero \<and> (?accept \<longrightarrow> ?run)")
proof (intro conjI impI)
  show ?zero by (rule MethodDiff_empty_fields)
next
  assume a: ?accept
  show ?run
    using a
    by (simp add: MethodDiff_eq_new MethodDiff_empty_by_sub_diffs_def
        set_unless_empty_check set_unless_empty_nil)
qed

text \<open>
  The theorem of C8 at two equal operations: the parameters diff comes back behind a pointer
  and empty, \<^verbatim>\<open>getMethodDiff\<close> leaves the field nil, and the \<^verbatim>\<open>MethodDiff\<close> is empty.
\<close>

theorem MethodDiff_empty_is_comparison_with_zero_witness:
  "ParametersDiff_empty sample_checks None \<and> RequestBodyDiff_empty sample_checks None \<and>
   ResponsesDiff_empty sample_checks None \<and> CallbacksDiff_empty sample_checks None \<and>
   ServersDiff_empty sample_checks None \<and>
   (getMethodDiff sample_checks sample_sub_diffs
      (Some (sample_operation ''List pets'' [''limit'']))
      (Some (sample_operation ''List pets'' [''limit''])) :: string failure + _) = Inr newMethodDiff \<and>
   getParametersDiff sample_sub_diffs [''limit''] [''limit''] = Some [] \<and>
   (MethodDiff_empty (Some newMethodDiff
      :: (string list, string list, string list, string list, string list, string list, string list) MethodDiff option)
      :: string failure + bool) = Inr (MethodDiff_empty_by_sub_diffs sample_checks newMethodDiff) \<and>
   MethodDiff_empty_by_sub_diffs sample_checks newMethodDiff"
proof -
  let ?op = "sample_operation ''List pets'' [''limit'']"
  have accept: "ParametersDiff_empty sample_checks None \<and> RequestBodyDiff_empty sample_checks None \<and>
      ResponsesDiff_empty sample_checks None \<and> CallbacksDiff_empty sample_checks None \<and>
      ServersDiff_empty sample_checks None"
    by (simp add: sample_checks_def sample_empty_def)
  have strings: "\<forall>tags1 tags2. StringsDiff_empty sample_checks (getStringsDiff sample_sub_diffs tags1 tags2) \<longleftrightarrow>
      getStringsDiff sample_sub_diffs tags1 tags2 = None"
    by (simp add: sample_checks_def sample_sub_diffs_def sample_diff_def sample_empty_def)
  have vals: "\<forall>value1 value2. ValueDiff_empty sample_checks (getValueDiff sample_sub_diffs value1 value2) \<longleftrightarrow>
      getValueDiff sample_sub_diffs value1 value2 = None"
    by (simp add: sample_checks_def sample_sub_diffs_def sample_diff_def sample_empty_def)
  have r: "(getMethodDiff sample_checks sample_sub_diffs (Some ?op) (Some ?op) :: string failure + _) =
      Inr newMethodDiff"
    by (simp add: sample_checks_def sample_sub_diffs_def sample_operation_def sample_diff_def
        sample_list_diff_def sample_empty_def set_unless_empty_def newMethodDiff_def)
  have p: "getParametersDiff sample_sub_diffs [''limit''] [''limit''] = Some []"
    by (simp add: sample_sub_diffs_def sample_list_diff_def)
  from MethodDiff_empty_is_comparison_with_zero
    [where ?'e = string and chk = sample_checks and sub = sample_sub_diffs
       and ?pathItem1.0 = ?op and ?pathItem2.0 = ?op, THEN conjunct2]
    accept strings vals
  obtain result where
    res: "(getMethodDiff sample_checks sample_sub_diffs (Some ?op) (Some ?op) :: string failure + _) = Inr result"
    and e: "(MethodDiff_empty (Some result) :: string failure + bool) =
       Inr (MethodDiff_empty_by_sub_diffs sample_checks result)"
    by blast
  from res r have n: "result = newMethodDiff" by simp
  have s: "MethodDiff_empty_by_sub_diffs sample_checks
     (newMethodDiff :: (string list, string list, string list, string list, string list, string list, string list) MethodDiff)"
    by (simp add: MethodDiff_empty_by_sub_diffs_def newMethodDiff_def sample_checks_def sample_empty_def)
  show ?thesis
    using accept r p e s unfolding n by (intro conjI) simp_all
qed

text \<open>
  C8 as the spec states it, that \<^verbatim>\<open>empty\<close> is the conjunction of the emptiness checks
  of the sub-diffs, fails on a \<^verbatim>\<open>MethodDiff\<close> that holds a pointer to an empty parameters
  diff: every sub-diff is empty, and \<^verbatim>\<open>empty\<close> returns false.
\<close>

theorem MethodDiff_empty_counterexample:
  "MethodDiff_empty (Some \<lparr>TagsDiff = None, SummaryDiff = None, DescriptionDiff = None,
      OperationIDDiff = None, ParametersDiff = Some [], RequestBodyDiff = None,
      ResponsesDiff = None, CallbacksDiff = None, DeprecatedDiff = None, ServersDiff = None\<rparr>) =
     (Inr False :: string failure + bool) \<and>
   MethodDiff_empty_by_sub_diffs sample_checks \<lparr>TagsDiff = None, SummaryDiff = None, DescriptionDiff = None,
      OperationIDDiff = None, ParametersDiff = Some [], RequestBodyDiff = None,
      ResponsesDiff = None, CallbacksDiff = None, DeprecatedDiff = None, ServersDiff = None\<rparr>"
  by (simp add: newMethodDiff_def MethodDiff_empty_by_sub_diffs_def sample_checks_def sample_empty_def)

end
